theory Spec2Isabelle
  imports Main "HOL-Library.Sublist"
begin

section \<open>Strings as the handlers use them\<close>

text \<open>
  JavaScript strings are modelled as \<^typ>\<open>string\<close>; a character stands for one code unit
  in the Latin-1 range. \<open>split_on\<close> is \<open>String.prototype.split\<close> with a one-character
  separator: it always returns at least one field, and \<open>''''.split('','')\<close> is \<open>['''']\<close>.
\<close>

fun split_on :: "char \<Rightarrow> string \<Rightarrow> string list" where
  "split_on c [] = [[]]"
| "split_on c (x # xs) =
     (if x = c then [] # split_on c xs
      else (case split_on c xs of [] \<Rightarrow> [[x]] | w # ws \<Rightarrow> (x # w) # ws))"

text \<open>\<open>Array.prototype.join\<close> with a one-character separator.\<close>

fun join_with :: "char \<Rightarrow> string list \<Rightarrow> string" where
  "join_with c [] = []"
| "join_with c [p] = p"
| "join_with c (p # q # ps) = p @ c # join_with c (q # ps)"

text \<open>White space as \<open>String.prototype.trim\<close> sees it, in the Latin-1 range:
  TAB, LF, VT, FF, CR, SPACE and NBSP.\<close>

definition is_space :: "char \<Rightarrow> bool" where
  "is_space c = (let n = (of_char c :: nat) in (9 \<le> n \<and> n \<le> 13) \<or> n = 32 \<or> n = 160)"

definition trim :: "string \<Rightarrow> string" where
  "trim s = rev (dropWhile is_space (rev (dropWhile is_space s)))"

text \<open>\<open>toLowerCase\<close> on the ASCII letters (all that the \<open>.csv\<close> test can see).\<close>

definition lower_char :: "char \<Rightarrow> char" where
  "lower_char c = (let n = (of_char c :: nat) in if 65 \<le> n \<and> n \<le> 90 then char_of (n + 32) else c)"

definition toLowerCase :: "string \<Rightarrow> string" where
  "toLowerCase s = map lower_char s"

text \<open>Template literals print a number in decimal.\<close>

definition digit_char :: "nat \<Rightarrow> char" where
  "digit_char d = ''0123456789'' ! d"

fun show_nat :: "nat \<Rightarrow> string" where
  "show_nat n = (if n < 10 then [digit_char n] else show_nat (n div 10) @ [digit_char (n mod 10)])"

declare show_nat.simps [simp del]

definition show_int :: "int \<Rightarrow> string" where
  "show_int i = (if i < 0 then CHR ''-'' # show_nat (nat (- i)) else show_nat (nat i))"

section \<open>JSON values\<close>

datatype json =
    JNull
  | JBool bool
  | JNum int
  | JStr string
  | JArr "json list"
  | JObj "(string \<times> json) list"

text \<open>The falsy values of JavaScript among the JSON values (\<open>!v\<close>); an absent field
  (\<open>undefined\<close>) is \<open>None\<close> and falsy too.\<close>

fun js_falsy :: "json option \<Rightarrow> bool" where
  "js_falsy None = True"
| "js_falsy (Some JNull) = True"
| "js_falsy (Some (JBool b)) = (\<not> b)"
| "js_falsy (Some (JNum n)) = (n = 0)"
| "js_falsy (Some (JStr s)) = (s = [])"
| "js_falsy (Some (JArr xs)) = False"
| "js_falsy (Some (JObj kvs)) = False"

text \<open>Property access \<open>v.key\<close> on a decoded document: of members with the same name
  \<open>JSON.parse\<close> keeps the last; only an object has members.\<close>

fun js_get :: "json \<Rightarrow> string \<Rightarrow> json option" where
  "js_get (JObj kvs) k = map_of (rev kvs) k"
| "js_get v k = None"

subsection \<open>\<open>JSON.stringify\<close>\<close>

definition hex_char :: "nat \<Rightarrow> char" where
  "hex_char d = ''0123456789abcdef'' ! d"

definition quote_char :: "char \<Rightarrow> string" where
  "quote_char c = (let n = (of_char c :: nat) in
     if n = 34 then [CHR 0x5C, CHR 0x22]
     else if n = 92 then [CHR 0x5C, CHR 0x5C]
     else if n = 8 then [CHR 0x5C, CHR ''b'']
     else if n = 9 then [CHR 0x5C, CHR ''t'']
     else if n = 10 then [CHR 0x5C, CHR ''n'']
     else if n = 12 then [CHR 0x5C, CHR ''f'']
     else if n = 13 then [CHR 0x5C, CHR ''r'']
     else if n < 32 then [CHR 0x5C, CHR ''u'', CHR ''0'', CHR ''0'', hex_char (n div 16), hex_char (n mod 16)]
     else [c])"

definition quote_string :: "string \<Rightarrow> string" where
  "quote_string s = CHR 0x22 # concat (map quote_char s) @ [CHR 0x22]"

fun json_stringify :: "json \<Rightarrow> string"
  and stringify_elems :: "json list \<Rightarrow> string list"
  and stringify_members :: "(string \<times> json) list \<Rightarrow> string list" where
  "json_stringify JNull = ''null''"
| "json_stringify (JBool b) = (if b then ''true'' else ''false'')"
| "json_stringify (JNum n) = show_int n"
| "json_stringify (JStr s) = quote_string s"
| "json_stringify (JArr xs) = CHR ''['' # join_with CHR '','' (stringify_elems xs) @ '']''"
| "json_stringify (JObj kvs) = CHR ''{'' # join_with CHR '','' (stringify_members kvs) @ ''}''"
| "stringify_elems [] = []"
| "stringify_elems (x # xs) = json_stringify x # stringify_elems xs"
| "stringify_members [] = []"
| "stringify_members (kv # kvs) =
     (quote_string (fst kv) @ CHR '':'' # json_stringify (snd kv)) # stringify_members kvs"

subsection \<open>\<open>JSON.parse\<close>\<close>

text \<open>
  \<open>JSON.parse\<close> is part of the platform, not of the repository: the handlers below take it
  as a parameter, and what is proved of them holds for every reader. For evaluation on
  concrete documents, \<open>JSON_parse\<close> is a recursive-descent reader of the JSON grammar with
  integers for numbers and the two-character escapes in strings (fractions, exponents and
  Unicode escapes are not read). \<open>None\<close> is the \<open>SyntaxError\<close> that \<open>JSON.parse\<close> throws.
  The fuel bounds the nesting depth; the length of the text is always enough, since every
  level consumes a character.
\<close>

definition is_json_ws :: "char \<Rightarrow> bool" where
  "is_json_ws c = (let n = (of_char c :: nat) in n = 32 \<or> n = 9 \<or> n = 10 \<or> n = 13)"

definition skip_ws :: "string \<Rightarrow> string" where
  "skip_ws s = dropWhile is_json_ws s"

definition is_digit :: "char \<Rightarrow> bool" where
  "is_digit c = (let n = (of_char c :: nat) in 48 \<le> n \<and> n \<le> 57)"

definition unescape :: "char \<Rightarrow> char option" where
  "unescape e =
     (if e = CHR 0x22 then Some (CHR 0x22)
      else if e = CHR 0x5C then Some (CHR 0x5C)
      else if e = CHR ''/'' then Some (CHR ''/'')
      else if e = CHR ''b'' then Some (CHR 0x08)
      else if e = CHR ''f'' then Some (CHR 0x0C)
      else if e = CHR ''n'' then Some (CHR 0x0A)
      else if e = CHR ''r'' then Some (CHR 0x0D)
      else if e = CHR ''t'' then Some (CHR 0x09)
      else None)"

fun parse_chars :: "bool \<Rightarrow> string \<Rightarrow> (string \<times> string) option" where
  "parse_chars esc [] = None"
| "parse_chars True (e # cs) =
     (case unescape e of
        None \<Rightarrow> None
      | Some d \<Rightarrow> map_option (apfst (Cons d)) (parse_chars False cs))"
| "parse_chars False (c # cs) =
     (if c = CHR 0x22 then Some ([], cs)
      else if c = CHR 0x5C then parse_chars True cs
      else if (of_char c :: nat) < 32 then None
      else map_option (apfst (Cons c)) (parse_chars False cs))"

definition digits_value :: "string \<Rightarrow> nat" where
  "digits_value ds = foldl (\<lambda>a c. 10 * a + (of_char c - 48)) 0 ds"

definition parse_nat_lit :: "string \<Rightarrow> (nat \<times> string) option" where
  "parse_nat_lit s =
     (let ds = takeWhile is_digit s; r = dropWhile is_digit s in
      if ds = [] then None
      else if hd ds = CHR ''0'' \<and> length ds > 1 then None
      else Some (digits_value ds, r))"

definition parse_number :: "string \<Rightarrow> (json \<times> string) option" where
  "parse_number s =
     (if s \<noteq> [] \<and> hd s = CHR ''-''
      then map_option (apfst (\<lambda>n. JNum (- int n))) (parse_nat_lit (tl s))
      else map_option (apfst (\<lambda>n. JNum (int n))) (parse_nat_lit s))"

fun parse_value :: "nat \<Rightarrow> string \<Rightarrow> (json \<times> string) option"
  and parse_elems :: "nat \<Rightarrow> string \<Rightarrow> (json list \<times> string) option"
  and parse_members :: "nat \<Rightarrow> string \<Rightarrow> ((string \<times> json) list \<times> string) option" where
  "parse_value 0 s = None"
| "parse_value (Suc n) s =
     (let t = skip_ws s in
      if t = [] then None
      else if hd t = CHR ''{'' then
        (if skip_ws (tl t) \<noteq> [] \<and> hd (skip_ws (tl t)) = CHR ''}''
         then Some (JObj [], tl (skip_ws (tl t)))
         else map_option (apfst JObj) (parse_members n (tl t)))
      else if hd t = CHR ''['' then
        (if skip_ws (tl t) \<noteq> [] \<and> hd (skip_ws (tl t)) = CHR '']''
         then Some (JArr [], tl (skip_ws (tl t)))
         else map_option (apfst JArr) (parse_elems n (tl t)))
      else if hd t = CHR 0x22 then map_option (apfst JStr) (parse_chars False (tl t))
      else if prefix ''true'' t then Some (JBool True, drop 4 t)
      else if prefix ''false'' t then Some (JBool False, drop 5 t)
      else if prefix ''null'' t then Some (JNull, drop 4 t)
      else parse_number t)"
| "parse_elems 0 s = None"
| "parse_elems (Suc n) s =
     (case parse_value n s of
        None \<Rightarrow> None
      | Some (v, r) \<Rightarrow>
          (let t = skip_ws r in
           if t = [] then None
           else if hd t = CHR '','' then map_option (apfst (Cons v)) (parse_elems n (tl t))
           else if hd t = CHR '']'' then Some ([v], tl t)
           else None))"
| "parse_members 0 s = None"
| "parse_members (Suc n) s =
     (let t = skip_ws s in
      if t = [] \<or> hd t \<noteq> CHR 0x22 then None
      else (case parse_chars False (tl t) of
        None \<Rightarrow> None
      | Some (k, r) \<Rightarrow>
          (let u = skip_ws r in
           if u = [] \<or> hd u \<noteq> CHR '':'' then None
           else (case parse_value n (tl u) of
             None \<Rightarrow> None
           | Some (v, r') \<Rightarrow>
               (let w = skip_ws r' in
                if w = [] then None
                else if hd w = CHR '','' then map_option (apfst (Cons (k, v))) (parse_members n (tl w))
                else if hd w = CHR ''}'' then Some ([(k, v)], tl w)
                else None)))))"

definition JSON_parse :: "string \<Rightarrow> json option" where
  "JSON_parse s =
     (case parse_value (Suc (length s)) s of
        None \<Rightarrow> None
      | Some (v, r) \<Rightarrow> if skip_ws r = [] then Some v else None)"

section \<open>Paths: POSIX \<open>path.join\<close> and \<open>path.resolve\<close>\<close>

text \<open>
  Both normalise segment by segment: an empty segment and \<open>.\<close> are dropped, \<open>..\<close> removes
  the segment before it (and nothing at the root). The paths of the handlers all start at
  \<open>__dirname\<close>, which Node gives as an absolute path, so the model is the one of absolute
  paths.
\<close>

definition norm_step :: "string list \<Rightarrow> string \<Rightarrow> string list" where
  "norm_step stk seg =
     (if seg = [] \<or> seg = ''.'' then stk
      else if seg = ''..'' then butlast stk
      else stk @ [seg])"

definition path_segments :: "string \<Rightarrow> string list" where
  "path_segments p = foldl norm_step [] (split_on CHR ''/'' p)"

definition render_path :: "string list \<Rightarrow> string" where
  "render_path segs = (if segs = [] then ''/'' else concat (map (Cons CHR ''/'') segs))"

text \<open>\<open>path.normalize\<close> keeps a trailing separator.\<close>

definition path_normalize :: "string \<Rightarrow> string" where
  "path_normalize p =
     (let segs = path_segments p in
      if segs = [] then ''/''
      else render_path segs @ (if p \<noteq> [] \<and> last p = CHR ''/'' then ''/'' else []))"

definition path_join :: "string list \<Rightarrow> string" where
  "path_join parts = path_normalize (join_with CHR ''/'' (filter (\<lambda>p. p \<noteq> []) parts))"

text \<open>\<open>path.resolve\<close> reads its arguments from the right and stops at the first absolute
  one: \<open>resolve_acc\<close> is that loop, on the reversed argument list.\<close>

fun resolve_acc :: "string list \<Rightarrow> string \<Rightarrow> string" where
  "resolve_acc [] acc = acc"
| "resolve_acc (p # ps) acc =
     (if p = [] then resolve_acc ps acc
      else if hd p = CHR ''/'' then p @ CHR ''/'' # acc
      else resolve_acc ps (p @ CHR ''/'' # acc))"

definition path_resolve :: "string list \<Rightarrow> string" where
  "path_resolve parts = render_path (path_segments (resolve_acc (rev parts) []))"

text \<open>A path lies below a directory when its segments extend the directory's.\<close>

definition is_descendant :: "string \<Rightarrow> string \<Rightarrow> bool" where
  "is_descendant base p = strict_prefix (path_segments base) (path_segments p)"

text \<open>A segment that normalisation keeps as it is.\<close>

definition plain_segment :: "string \<Rightarrow> bool" where
  "plain_segment seg = (seg \<noteq> [] \<and> seg \<noteq> ''.'' \<and> seg \<noteq> ''..'' \<and> CHR ''/'' \<notin> set seg)"

section \<open>The store: tables of \<open>init.sql\<close>, the upload directory, the collaborators\<close>

record user_row =
  user_id :: int
  username :: string
  password_hash :: string

record dataset_row =
  ds_id :: int
  ds_user_id :: int
  file_path :: string
  original_name :: string
  schema_json :: "string option"
  uploaded_at :: nat

record chat_row =
  ch_id :: int
  ch_user_id :: int
  ch_dataset_id :: int
  query :: string
  response :: "string option"
  code :: "string option"
  created_at :: nat

text \<open>What \<open>POST /analyze\<close> is sent.\<close>

record analyze_request =
  req_file_path :: string
  req_schema :: json
  req_question :: string
  req_context :: json

text \<open>
  \<open>files\<close> is the file system under the upload directory (path and content), \<open>db_up\<close>
  tells whether the database answers (every statement throws when it does not), and
  \<open>analyze_log\<close> records the requests sent to the analysis service, oldest first.
\<close>

record world =
  users :: "user_row list"
  datasets :: "dataset_row list"
  chat_history :: "chat_row list"
  files :: "(string \<times> string) list"
  db_up :: bool
  analyze_log :: "analyze_request list"

definition fs_write :: "(string \<times> string) list \<Rightarrow> string \<Rightarrow> string \<Rightarrow> (string \<times> string) list" where
  "fs_write fs p c = (p, c) # filter (\<lambda>e. fst e \<noteq> p) fs"

definition fs_unlink :: "(string \<times> string) list \<Rightarrow> string \<Rightarrow> (string \<times> string) list" where
  "fs_unlink fs p = filter (\<lambda>e. fst e \<noteq> p) fs"

text \<open>\<open>INTEGER PRIMARY KEY AUTOINCREMENT\<close>: one more than the largest id (rows are never
  deleted).\<close>

definition next_id :: "int list \<Rightarrow> int" where
  "next_id ids = fold max ids 0 + 1"

text \<open>\<open>CURRENT_TIMESTAMP\<close> has a resolution of one second; the clock is in milliseconds.\<close>

definition sql_now :: "nat \<Rightarrow> nat" where
  "sql_now now = now div 1000"

subsection \<open>Replies\<close>

record listed_dataset =
  l_id :: int
  l_original_name :: string
  l_schema_json :: "string option"
  l_uploaded_at :: nat
  l_schema :: json

record history_row =
  h_id :: int
  h_query :: string
  h_response :: "string option"
  h_code :: "string option"
  h_created_at :: nat
  dataset_name :: string

datatype body =
    Error string
  | Uploaded int string json
  | DatasetList "listed_dataset list"
  | ChatAnswer "string option" json string "string option"
  | HistoryRows "history_row list"
  | HealthReport string string string nat
  | LoggedIn string int string

type_synonym reply = "nat \<times> body"

definition em_dash :: string where
  "em_dash = [CHR 0xE2, CHR 0x80, CHR 0x94]"

section \<open>\<open>routes/dataset.js\<close>\<close>

text \<open>The upload as multer hands it over: the declared name, the size in bytes and the
  decoded text.\<close>

record upload_file =
  originalname :: string
  file_size :: nat
  content :: string

text \<open>\<open>destination\<close>: \<open>path.join(__dirname, '..', 'uploads', `user_${req.user.id}`)\<close>.\<close>

definition destination :: "string \<Rightarrow> int \<Rightarrow> string" where
  "destination dirname uid = path_join [dirname, ''..'', ''uploads'', ''user_'' @ show_int uid]"

text \<open>\<open>filename\<close>: every character outside \<open>[a-zA-Z0-9._-]\<close> becomes \<open>_\<close>, and
  \<open>Date.now()\<close> is put in front.\<close>

definition allowed_char :: "char \<Rightarrow> bool" where
  "allowed_char c = (let n = (of_char c :: nat) in
     (97 \<le> n \<and> n \<le> 122) \<or> (65 \<le> n \<and> n \<le> 90) \<or> (48 \<le> n \<and> n \<le> 57)
     \<or> c = CHR ''.'' \<or> c = CHR ''_'' \<or> c = CHR ''-'')"

definition safeName :: "string \<Rightarrow> string" where
  "safeName name = map (\<lambda>c. if allowed_char c then c else CHR ''_'') name"

definition uniqueName :: "nat \<Rightarrow> string \<Rightarrow> string" where
  "uniqueName now name = show_nat now @ CHR ''_'' # safeName name"

text \<open>multer's disk storage writes the file at \<open>path.join(destination, filename)\<close>, which
  becomes \<open>req.file.path\<close>.\<close>

definition stored_path :: "string \<Rightarrow> int \<Rightarrow> nat \<Rightarrow> string \<Rightarrow> string" where
  "stored_path dirname uid now name = path_join [destination dirname uid, uniqueName now name]"

text \<open>\<open>safeBase\<close>: \<open>path.resolve(__dirname, '..', 'uploads', `user_${userId}`)\<close>.\<close>

definition safeBase :: "string \<Rightarrow> int \<Rightarrow> string" where
  "safeBase dirname uid = path_resolve [dirname, ''..'', ''uploads'', ''user_'' @ show_int uid]"

text \<open>The segments of that directory, when \<open>__dirname\<close> is absolute.\<close>

definition sandbox_segments :: "string \<Rightarrow> int \<Rightarrow> string list" where
  "sandbox_segments dirname uid =
     butlast (path_segments dirname) @ [''uploads'', ''user_'' @ show_int uid]"

definition fileFilter :: "upload_file \<Rightarrow> bool" where
  "fileFilter f = suffix ''.csv'' (toLowerCase (originalname f))"

text \<open>\<open>col.trim().replace(/^"|"$/g, '')\<close>: one quote off the front, one off the end.\<close>

definition strip_quotes :: "string \<Rightarrow> string" where
  "strip_quotes s =
     (let s1 = (if s \<noteq> [] \<and> hd s = CHR 0x22 then tl s else s) in
      if s1 \<noteq> [] \<and> last s1 = CHR 0x22 then butlast s1 else s1)"

definition header_columns :: "string \<Rightarrow> string list" where
  "header_columns text =
     map (\<lambda>col. strip_quotes (trim col)) (split_on CHR '','' (hd (split_on CHR 0x0A text)))"

text \<open>\<open>extractSchema\<close> reads the file (\<open>None\<close>: \<open>readFileSync\<close> throws).\<close>

definition extractSchema :: "(string \<times> string) list \<Rightarrow> string \<Rightarrow> string list option" where
  "extractSchema fs filePath = map_option header_columns (map_of fs filePath)"

definition schema_object :: "string list \<Rightarrow> json" where
  "schema_object cols = JObj [(''columns'', JArr (map JStr cols))]"

text \<open>
  \<open>POST /api/upload\<close>, for the authenticated user \<open>uid\<close> at clock \<open>now\<close>. multer runs
  first (file filter, size limit, disk storage), then the handler's callback. The
  \<open>INSERT\<close> throws when the database does not answer, and also when no row of \<open>users\<close> has
  the caller's id: \<open>datasets.user_id\<close> is a foreign key, and the connection is opened with
  \<open>foreign_keys = ON\<close>. Either way the \<open>catch\<close> block answers 500.
\<close>

definition upload_post :: "string \<Rightarrow> world \<Rightarrow> int \<Rightarrow> nat \<Rightarrow> upload_file option \<Rightarrow> reply \<times> world" where
  "upload_post dirname st uid now fo =
     (case fo of
        None \<Rightarrow> ((400, Error ''No file uploaded''), st)
      | Some f \<Rightarrow>
          if \<not> fileFilter f then ((400, Error ''Only CSV files are allowed''), st)
          else if file_size f > 10 * 1024 * 1024
          then ((413, Error (''File too large '' @ em_dash @ '' 10 MB max'')), st)
          else
            let stored = stored_path dirname uid now (originalname f);
                st1 = st\<lparr>files := fs_write (files st) stored (content f)\<rparr>;
                filePath = path_resolve [stored]
            in
              if \<not> prefix (safeBase dirname uid) filePath then
                (if map_of (files st1) filePath = None
                 then ((500, Error ''Failed to process upload''), st1)
                 else ((400, Error ''Invalid file path detected''),
                       st1\<lparr>files := fs_unlink (files st1) filePath\<rparr>))
              else
                (case extractSchema (files st1) filePath of
                   None \<Rightarrow> ((500, Error ''Failed to process upload''), st1)
                 | Some cols \<Rightarrow>
                     if cols = [] \<or> hd cols = [] then
                       ((400, Error ''CSV has no valid column headers''), st1)
                     else if \<not> db_up st1 \<or> uid \<notin> user_id ` set (users st1) then
                       ((500, Error ''Failed to process upload''), st1)
                     else
                       let new_id = next_id (map ds_id (datasets st1));
                           row = \<lparr>ds_id = new_id, ds_user_id = uid, file_path = filePath,
                                  original_name = originalname f,
                                  schema_json = Some (json_stringify (schema_object cols)),
                                  uploaded_at = sql_now now\<rparr>
                       in ((201, Uploaded new_id (originalname f) (schema_object cols)),
                           st1\<lparr>datasets := datasets st1 @ [row]\<rparr>)))"

text \<open>\<open>GET /api/upload/datasets\<close>: the caller's rows, \<open>ORDER BY uploaded_at DESC\<close>, each with
  its schema decoded; a document that does not decode throws, and the handler answers 500.
  SQLite leaves the order of rows with equal keys open; the model keeps them in table
  order. \<open>JSON.parse(null)\<close>, for a \<open>NULL\<close> column, reads the text \<open>null\<close>.\<close>

definition decode_column :: "(string \<Rightarrow> json option) \<Rightarrow> string option \<Rightarrow> json option" where
  "decode_column parse col = parse (case col of None \<Rightarrow> ''null'' | Some t \<Rightarrow> t)"

definition owned_datasets :: "world \<Rightarrow> int \<Rightarrow> dataset_row list" where
  "owned_datasets st uid =
     sort_key (\<lambda>d. - int (uploaded_at d)) (filter (\<lambda>d. ds_user_id d = uid) (datasets st))"

fun list_rows :: "(string \<Rightarrow> json option) \<Rightarrow> dataset_row list \<Rightarrow> listed_dataset list option" where
  "list_rows parse [] = Some []"
| "list_rows parse (d # ds) =
     (case decode_column parse (schema_json d) of
        None \<Rightarrow> None
      | Some v \<Rightarrow>
          map_option
            (Cons \<lparr>l_id = ds_id d, l_original_name = original_name d,
                   l_schema_json = schema_json d, l_uploaded_at = uploaded_at d, l_schema = v\<rparr>)
            (list_rows parse ds))"

definition datasets_get :: "(string \<Rightarrow> json option) \<Rightarrow> world \<Rightarrow> int \<Rightarrow> reply" where
  "datasets_get parse st uid =
     (if \<not> db_up st then (500, Error ''Failed to fetch datasets'')
      else (case list_rows parse (owned_datasets st uid) of
              None \<Rightarrow> (500, Error ''Failed to fetch datasets'')
            | Some parsed \<Rightarrow> (200, DatasetList parsed)))"

section \<open>\<open>routes/chat.js\<close>\<close>

text \<open>
  The functions of the platform that the handlers call and the repository does not
  define are parameters: \<open>h_parse\<close> is \<open>JSON.parse\<close> (\<open>None\<close> when it throws),
  \<open>h_affinity\<close> is the integer that SQLite reads in a text compared with, or stored in, an
  \<open>INTEGER\<close> column (\<open>None\<close> when the text is no number and stays text),
  \<open>h_compare\<close> is \<open>bcrypt.compare\<close> (\<open>None\<close> when it rejects its arguments) and
  \<open>h_sign\<close> is \<open>jwt.sign\<close> for the claims \<open>{id, username}\<close>.
\<close>

record host =
  h_parse :: "string \<Rightarrow> json option"
  h_affinity :: "string \<Rightarrow> int option"
  h_compare :: "json \<Rightarrow> string \<Rightarrow> bool option"
  h_sign :: "int \<Rightarrow> string \<Rightarrow> string"

text \<open>The dataset identifier of a request body: a JSON number or a JSON string. \<open>sql_int\<close>
  is the integer that the bound parameter stands for when SQLite compares it with the
  \<open>INTEGER\<close> column \<open>id\<close> and stores it in the \<open>INTEGER\<close> column \<open>dataset_id\<close>.\<close>

datatype id_param = IdNum int | IdStr string

fun id_falsy :: "id_param option \<Rightarrow> bool" where
  "id_falsy None = True"
| "id_falsy (Some (IdNum n)) = (n = 0)"
| "id_falsy (Some (IdStr s)) = (s = [])"

fun sql_int :: "host \<Rightarrow> id_param \<Rightarrow> int option" where
  "sql_int h (IdNum n) = Some n"
| "sql_int h (IdStr s) = h_affinity h s"

record chat_request =
  dataset_id :: "id_param option"
  question :: "json option"
  chat_context :: "json option"

text \<open>The reply of the analysis service as its contract types it, \<open>{answer, data, code,
  chart_type}\<close> with strings for \<open>answer\<close>, \<open>code\<close> and \<open>chart_type\<close> and every field
  optional, or the \<open>code\<close> of the error that axios rejects with.\<close>

record analysis =
  a_answer :: "string option"
  a_data :: "json option"
  a_code :: "string option"
  a_chart_type :: "string option"

datatype upstream = Replied analysis | Failed "string option"

text \<open>\<open>s || ''\<close> on an optional string.\<close>

definition or_empty :: "string option \<Rightarrow> string" where
  "or_empty v = (case v of None \<Rightarrow> [] | Some s \<Rightarrow> s)"

text \<open>The \<open>catch\<close> block of the chat handler, on the \<open>code\<close> of what was thrown.\<close>

definition chat_catch :: "string option \<Rightarrow> reply" where
  "chat_catch c =
     (if c = Some ''ECONNABORTED''
      then (504, Error (''AI Service Timeout '' @ em_dash @ '' try again later''))
      else if c = Some ''ECONNREFUSED''
      then (503, Error (''AI Service Unavailable '' @ em_dash @ '' Python service is not running''))
      else (500, Error ''Internal server error''))"

text \<open>\<open>!schema || !Array.isArray(schema.columns) || schema.columns.length === 0\<close>,
  negated.\<close>

definition usable_schema :: "json \<Rightarrow> bool" where
  "usable_schema v =
     (\<not> js_falsy (Some v) \<and>
      (case js_get v ''columns'' of Some (JArr cols) \<Rightarrow> cols \<noteq> [] | _ \<Rightarrow> False))"

text \<open>\<open>SELECT * FROM datasets WHERE id = ? AND user_id = ?\<close>, first row.\<close>

definition find_owned_dataset :: "world \<Rightarrow> int \<Rightarrow> int \<Rightarrow> dataset_row option" where
  "find_owned_dataset st i uid = find (\<lambda>d. ds_id d = i \<and> ds_user_id d = uid) (datasets st)"

text \<open>The body posted to \<open>/analyze\<close> (\<open>context || []\<close>), the reply to the caller
  (\<open>data || {}\<close>, \<open>code || ''\<close>, \<open>chart_type || null\<close>) and the row of the \<open>INSERT\<close>.\<close>

definition analysis_request :: "dataset_row \<Rightarrow> json \<Rightarrow> string \<Rightarrow> json option \<Rightarrow> analyze_request" where
  "analysis_request d schema q ctx =
     \<lparr>req_file_path = file_path d, req_schema = schema, req_question = q,
      req_context = (if js_falsy ctx then JArr [] else the ctx)\<rparr>"

definition chat_answer :: "analysis \<Rightarrow> body" where
  "chat_answer r =
     ChatAnswer (a_answer r)
       (if js_falsy (a_data r) then JObj [] else the (a_data r))
       (or_empty (a_code r))
       (if a_chart_type r = Some [] then None else a_chart_type r)"

definition history_entry :: "world \<Rightarrow> int \<Rightarrow> int \<Rightarrow> string \<Rightarrow> analysis \<Rightarrow> nat \<Rightarrow> chat_row" where
  "history_entry st uid i q r now =
     \<lparr>ch_id = next_id (map ch_id (chat_history st)), ch_user_id = uid, ch_dataset_id = i,
      query = q, response = Some (or_empty (a_answer r)), code = Some (or_empty (a_code r)),
      created_at = sql_now now\<rparr>"

text \<open>The handler from \<open>getDatabase()\<close> on: the lookup by id and owner, the schema check, the
  call of the analysis service and the \<open>INSERT\<close> into \<open>chat_history\<close>.\<close>

definition ask :: "host \<Rightarrow> (analyze_request \<Rightarrow> upstream) \<Rightarrow> world \<Rightarrow> int \<Rightarrow> nat \<Rightarrow> id_param \<Rightarrow>
    string \<Rightarrow> json option \<Rightarrow> reply \<times> world" where
  "ask h py st uid now p q ctx =
     (if \<not> db_up st then (chat_catch None, st)
      else (case sql_int h p of
        None \<Rightarrow> ((404, Error ''Dataset not found''), st)
      | Some i \<Rightarrow>
         (case find_owned_dataset st i uid of
            None \<Rightarrow> ((404, Error ''Dataset not found''), st)
          | Some d \<Rightarrow>
             (case decode_column (h_parse h) (schema_json d) of
                None \<Rightarrow> (chat_catch None, st)
              | Some schema \<Rightarrow>
                  if \<not> usable_schema schema then
                    ((400, Error (''Dataset has invalid schema '' @ em_dash @ '' re-upload the CSV'')), st)
                  else
                    let areq = analysis_request d schema q ctx;
                        st1 = st\<lparr>analyze_log := analyze_log st @ [areq]\<rparr>
                    in (case py areq of
                          Failed c \<Rightarrow> (chat_catch c, st1)
                        | Replied r \<Rightarrow>
                            ((200, chat_answer r),
                             st1\<lparr>chat_history := chat_history st1 @
                               [history_entry st1 uid i q r now]\<rparr>))))))"

text \<open>\<open>POST /api/chat\<close> for the authenticated user \<open>uid\<close>: the guards on the body, then
  \<open>ask\<close>.\<close>

definition chat_post :: "host \<Rightarrow> (analyze_request \<Rightarrow> upstream) \<Rightarrow> world \<Rightarrow> int \<Rightarrow> nat \<Rightarrow>
    chat_request \<Rightarrow> reply \<times> world" where
  "chat_post h py st uid now req =
     (if id_falsy (dataset_id req) \<or> js_falsy (question req)
      then ((400, Error ''dataset_id and question are required''), st)
      else (case question req of
        Some (JStr q) \<Rightarrow>
          if length (trim q) = 0 then ((400, Error ''Question must be a non-empty string''), st)
          else if length q > 500
          then ((400, Error (''Question too long '' @ em_dash @ '' 500 characters max'')), st)
          else ask h py st uid now (the (dataset_id req)) q (chat_context req)
      | _ \<Rightarrow> ((400, Error ''Question must be a non-empty string''), st)))"

text \<open>
  \<open>GET /api/history\<close>: \<open>chat_history JOIN datasets ON ch.dataset_id = d.id\<close>, the caller's rows
  (of one dataset when the query string names one; an empty parameter is falsy and names
  none), \<open>ORDER BY ch.created_at DESC LIMIT 5\<close>. \<open>created_at\<close> has a resolution of one
  second, and SQLite leaves the order of rows with equal keys open; the model keeps them
  in table order.
\<close>

definition history_filter :: "host \<Rightarrow> string option \<Rightarrow> chat_row \<Rightarrow> bool" where
  "history_filter h datasetId c =
     (case datasetId of
        None \<Rightarrow> True
      | Some s \<Rightarrow> if s = [] then True else h_affinity h s = Some (ch_dataset_id c))"

definition history_join :: "host \<Rightarrow> world \<Rightarrow> int \<Rightarrow> string option \<Rightarrow> (chat_row \<times> dataset_row) list" where
  "history_join h st uid datasetId =
     concat (map (\<lambda>c. map (Pair c) (filter (\<lambda>d. ch_dataset_id c = ds_id d) (datasets st)))
       (filter (\<lambda>c. ch_user_id c = uid \<and> history_filter h datasetId c) (chat_history st)))"

definition history_select :: "host \<Rightarrow> world \<Rightarrow> int \<Rightarrow> string option \<Rightarrow> (chat_row \<times> dataset_row) list" where
  "history_select h st uid datasetId =
     take 5 (sort_key (\<lambda>cd. - int (created_at (fst cd))) (history_join h st uid datasetId))"

definition history_project :: "chat_row \<times> dataset_row \<Rightarrow> history_row" where
  "history_project cd =
     \<lparr>h_id = ch_id (fst cd), h_query = query (fst cd), h_response = response (fst cd),
      h_code = code (fst cd), h_created_at = created_at (fst cd),
      dataset_name = original_name (snd cd)\<rparr>"

definition history_get :: "host \<Rightarrow> world \<Rightarrow> int \<Rightarrow> string option \<Rightarrow> reply" where
  "history_get h st uid datasetId =
     (if \<not> db_up st then (500, Error ''Failed to fetch history'')
      else (200, HistoryRows (map history_project (history_select h st uid datasetId))))"


section \<open>\<open>routes/auth.js\<close>: login\<close>



section \<open>\<open>index.js\<close>: the health probe\<close>

text \<open>The two \<open>try\<close> blocks: \<open>SELECT 1\<close> on the database, and \<open>GET /health\<close> on the analysis
  service, whose outcome (\<open>Inl\<close>: the request was rejected) is given.\<close>

definition select_one :: "world \<Rightarrow> string + unit" where
  "select_one st = (if db_up st then Inr () else Inl ''database unavailable'')"

definition health_get :: "world \<Rightarrow> string + unit \<Rightarrow> nat \<Rightarrow> reply" where
  "health_get st py_health now =
     (let dbStatus = (case select_one st of Inr u \<Rightarrow> ''connected'' | Inl e \<Rightarrow> ''error'');
          pythonStatus = (case py_health of Inr u \<Rightarrow> ''connected'' | Inl e \<Rightarrow> ''unavailable'')
      in (200, HealthReport (if dbStatus = ''connected'' then ''ok'' else ''degraded'')
                 dbStatus pythonStatus now))"

section \<open>The states the server can be in\<close>

text \<open>
  The database starts with empty \<open>datasets\<close> and \<open>chat_history\<close> tables; the only statements
  that write to them are the two \<open>INSERT\<close>s of the upload and chat handlers. Registration
  writes to \<open>users\<close> only, and the database can go down and come back.
\<close>

inductive reachable :: "host \<Rightarrow> world \<Rightarrow> bool" for h :: host where
  fresh: "datasets st = [] \<Longrightarrow> chat_history st = [] \<Longrightarrow> reachable h st"
| upload: "reachable h st \<Longrightarrow> reachable h (snd (upload_post dirname st uid now fo))"
| chat: "reachable h st \<Longrightarrow> reachable h (snd (chat_post h py st uid now req))"
| outage: "reachable h st \<Longrightarrow> reachable h (st\<lparr>db_up := b\<rparr>)"
| register: "reachable h st \<Longrightarrow> reachable h (st\<lparr>users := us\<rparr>)"

text \<open>What every such state satisfies: dataset ids are unique, every history row points at
  a dataset of the row's own user, and no history row holds \<open>NULL\<close> in \<open>response\<close> or
  \<open>code\<close>.\<close>

definition consistent :: "world \<Rightarrow> bool" where
  "consistent st =
     (distinct (map ds_id (datasets st)) \<and>
      (\<forall>c\<in>set (chat_history st).
         (\<exists>d\<in>set (datasets st). ds_id d = ch_dataset_id c \<and> ds_user_id d = ch_user_id c) \<and>
         response c \<noteq> None \<and> code c \<noteq> None))"

subsection \<open>A concrete platform and concrete states, for evaluation\<close>

text \<open>Decimal text as SQLite converts it for an \<open>INTEGER\<close> column.\<close>

definition decimal_text :: "string \<Rightarrow> int option" where
  "decimal_text s =
     (case parse_number s of
        Some (JNum n, r) \<Rightarrow> if r = [] then Some n else None
      | _ \<Rightarrow> None)"

text \<open>A stand-in for bcrypt with the argument check of \<open>bcryptjs\<close>: a secret that is not a
  string is rejected.\<close>

definition demo_compare :: "json \<Rightarrow> string \<Rightarrow> bool option" where
  "demo_compare pw digest = (case pw of JStr s \<Rightarrow> Some (digest = ''$2a$10$'' @ rev s) | _ \<Rightarrow> None)"

definition demo_dirname :: string where
  "demo_dirname = ''/srv/app/routes''"

definition empty_world :: world where
  "empty_world = \<lparr>users = [], datasets = [], chat_history = [], files = [], db_up = True,
     analyze_log = []\<rparr>"

definition traversal_csv :: upload_file where
  "traversal_csv = \<lparr>originalname = ''../../evil.csv'', file_size = 13, content = ''name,age,city''\<rparr>"

definition headerless_csv :: upload_file where
  "headerless_csv = \<lparr>originalname = ''empty.csv'', file_size = 6, content = CHR 0x0A # ''1,2,3''\<rparr>"


definition node_host :: host where
  "node_host = \<lparr>h_parse = JSON_parse, h_affinity = decimal_text, h_compare = demo_compare,
     h_sign = (\<lambda>i name. ''token.'' @ show_int i @ ''.'' @ name)\<rparr>"

text \<open>An analysis service that answers without \<open>code\<close>, one that answers nothing at all, and
  one that times out.\<close>

definition demo_service :: "analyze_request \<Rightarrow> upstream" where
  "demo_service areq = Replied \<lparr>a_answer = Some ''3 rows'', a_data = None, a_code = None,
     a_chart_type = None\<rparr>"

definition silent_service :: "analyze_request \<Rightarrow> upstream" where
  "silent_service areq = Replied \<lparr>a_answer = None, a_data = None, a_code = None,
     a_chart_type = None\<rparr>"

definition timeout_service :: "analyze_request \<Rightarrow> upstream" where
  "timeout_service areq = Failed (Some ''ECONNABORTED'')"

definition demo_question :: chat_request where
  "demo_question = \<lparr>dataset_id = Some (IdNum 1), question = Some (JStr ''how many rows?''),
     chat_context = None\<rparr>"

text \<open>Users 7 and 8 are registered; user 7 uploads a file, then asks once.\<close>

definition registered_world :: world where
  "registered_world = empty_world\<lparr>users :=
     [\<lparr>user_id = 7, username = ''carol'', password_hash = ''$2a$10$lorac''\<rparr>,
      \<lparr>user_id = 8, username = ''dave'', password_hash = ''$2a$10$evad''\<rparr>]\<rparr>"

definition uploaded_world :: world where
  "uploaded_world =
     snd (upload_post demo_dirname registered_world 7 1699000123456 (Some traversal_csv))"

definition asked_world :: world where
  "asked_world = snd (chat_post node_host silent_service uploaded_world 7 1699000125000 demo_question)"






text \<open>A database whose only dataset row, of user 7, holds a given schema document.\<close>

definition legacy_world :: "string option \<Rightarrow> world" where
  "legacy_world doc = empty_world\<lparr>datasets :=
     [\<lparr>ds_id = 1, ds_user_id = 7, file_path = ''/srv/app/uploads/user_7/1690000000000_old.csv'',
       original_name = ''old.csv'', schema_json = doc, uploaded_at = 1690000000\<rparr>]\<rparr>"

section \<open>Splitting and joining\<close>

lemma split_on_nonempty: "split_on c xs \<noteq> []"
  by (induction xs) (auto split: list.splits)

lemma split_on_no_sep: "c \<notin> set xs \<Longrightarrow> split_on c xs = [xs]"
  by (induction xs) (auto split: list.splits)

lemma split_on_append: "split_on c (xs @ c # ys) = split_on c xs @ split_on c ys"
  by (induction xs) (auto split: list.splits simp: split_on_nonempty)

lemma split_on_sep_free: "w \<in> set (split_on c xs) \<Longrightarrow> c \<notin> set w"
  by (induction xs arbitrary: w) (auto split: list.splits if_splits)

lemma split_on_field_first: "c \<notin> set s \<Longrightarrow> split_on c (s @ c # t) = s # split_on c t"
  by (simp add: split_on_append split_on_no_sep)

lemma split_on_rendered:
  "c \<notin> set s \<Longrightarrow> \<forall>x\<in>set rest. c \<notin> set x \<Longrightarrow>
   split_on c (s @ concat (map (Cons c) rest)) = s # rest"
proof (induction rest arbitrary: s)
  case Nil
  then show ?case by (simp add: split_on_no_sep)
next
  case (Cons r rest)
  have "split_on c (s @ c # (r @ concat (map (Cons c) rest))) = s # split_on c (r @ concat (map (Cons c) rest))"
    using Cons.prems(1) by (rule split_on_field_first)
  also have "split_on c (r @ concat (map (Cons c) rest)) = r # rest"
    using Cons.prems(2) by (intro Cons.IH) auto
  finally show ?case by simp
qed

lemma foldl_norm_step_plain:
  "\<forall>x\<in>set xs. plain_segment x \<Longrightarrow> foldl norm_step acc xs = acc @ xs"
  by (induction xs arbitrary: acc) (auto simp: norm_step_def plain_segment_def)

lemma foldl_norm_step_keeps_plain:
  "\<forall>x\<in>set acc. plain_segment x \<Longrightarrow> \<forall>x\<in>set xs. CHR ''/'' \<notin> set x \<Longrightarrow>
   \<forall>x\<in>set (foldl norm_step acc xs). plain_segment x"
proof (induction xs arbitrary: acc)
  case Nil
  then show ?case by simp
next
  case (Cons x xs)
  have "\<forall>y\<in>set (norm_step acc x). plain_segment y"
    using Cons.prems by (auto simp: norm_step_def plain_segment_def dest: in_set_butlastD)
  then show ?case using Cons.prems(2) by (simp add: Cons.IH)
qed

lemma path_segments_plain: "\<forall>x\<in>set (path_segments p). plain_segment x"
  unfolding path_segments_def
  by (rule foldl_norm_step_keeps_plain) (auto dest: split_on_sep_free)

lemma render_path_snoc: "segs \<noteq> [] \<Longrightarrow> render_path (segs @ [x]) = render_path segs @ CHR ''/'' # x"
  by (simp add: render_path_def)

lemma split_on_render_path:
  assumes "segs \<noteq> []" "\<forall>x\<in>set segs. plain_segment x"
  shows "split_on CHR ''/'' (render_path segs) = [] # segs"
  using split_on_rendered[of "CHR ''/''" "[]" segs] assms
  by (simp add: render_path_def plain_segment_def)

lemma path_segments_render_path:
  assumes "\<forall>x\<in>set segs. plain_segment x"
  shows "path_segments (render_path segs) = segs"
proof (cases "segs = []")
  case True
  then show ?thesis by (simp add: render_path_def path_segments_def norm_step_def)
next
  case False
  then show ?thesis
    using assms foldl_norm_step_plain[of segs "[]"]
    by (simp add: path_segments_def split_on_render_path norm_step_def)
qed

lemma show_nat_digits: "set (show_nat n) \<subseteq> set ''0123456789''"
proof (induction n rule: show_nat.induct)
  case (1 n)
  have d: "\<And>k. k < 10 \<Longrightarrow> digit_char k \<in> set ''0123456789''"
    unfolding digit_char_def by (rule nth_mem) simp
  show ?case
  proof (cases "n < 10")
    case True
    then show ?thesis using d[of n] by (subst show_nat.simps) simp
  next
    case False
    then show ?thesis using 1 d[of "n mod 10"] by (subst show_nat.simps) auto
  qed
qed

lemma show_nat_nonempty: "show_nat n \<noteq> []"
  by (subst show_nat.simps) simp


lemma plain_segmentD:
  assumes "plain_segment U"
  shows "U \<noteq> [] \<and> hd U \<noteq> CHR ''/'' \<and> last U \<noteq> CHR ''/'' \<and> CHR ''/'' \<notin> set U \<and>
    U \<noteq> ''.'' \<and> U \<noteq> ''..''"
proof -
  have ne: "U \<noteq> []" and nosep: "CHR ''/'' \<notin> set U"
    using assms by (auto simp: plain_segment_def)
  have "hd U \<in> set U" "last U \<in> set U" using ne by simp_all
  then have "hd U \<noteq> CHR ''/''" "last U \<noteq> CHR ''/''" using nosep by metis+
  then show ?thesis using assms by (simp add: plain_segment_def)
qed

lemma split_sandbox:
  assumes "plain_segment U"
  shows "split_on CHR ''/'' (D @ CHR ''/'' # ''..'' @ CHR ''/'' # ''uploads'' @ CHR ''/'' # U @ t) =
         split_on CHR ''/'' D @ [''..'', ''uploads''] @ split_on CHR ''/'' (U @ t)"
proof -
  have "split_on CHR ''/'' (D @ CHR ''/'' # (''..'' @ CHR ''/'' # (''uploads'' @ CHR ''/'' # (U @ t)))) =
        split_on CHR ''/'' D @ split_on CHR ''/'' (''..'' @ CHR ''/'' # (''uploads'' @ CHR ''/'' # (U @ t)))"
    by (rule split_on_append)
  also have "split_on CHR ''/'' (''..'' @ CHR ''/'' # (''uploads'' @ CHR ''/'' # (U @ t))) =
        ''..'' # split_on CHR ''/'' (''uploads'' @ CHR ''/'' # (U @ t))"
    by (rule split_on_field_first) simp
  also have "split_on CHR ''/'' (''uploads'' @ CHR ''/'' # (U @ t)) = ''uploads'' # split_on CHR ''/'' (U @ t)"
    by (rule split_on_field_first) simp
  finally show ?thesis by simp
qed

lemma segments_sandbox:
  assumes "plain_segment U" "t = [] \<or> t = ''/''"
  shows "path_segments (D @ CHR ''/'' # ''..'' @ CHR ''/'' # ''uploads'' @ CHR ''/'' # U @ t) =
         butlast (path_segments D) @ [''uploads'', U]"
proof -
  have u: "split_on CHR ''/'' (U @ t) = (if t = [] then [U] else [U, []])"
    using assms plain_segmentD[OF assms(1)]
      split_on_field_first[of "CHR ''/''" U "[]"] by (auto simp: split_on_no_sep)
  show ?thesis
    using plain_segmentD[OF assms(1)] split_sandbox[OF assms(1), of D t] u
    by (simp add: path_segments_def norm_step_def)
qed

lemma sandbox_base_plain:
  assumes "plain_segment U"
  shows "\<forall>x\<in>set (butlast (path_segments D) @ [''uploads'', U]). plain_segment x"
  using assms path_segments_plain[of D] by (auto simp: plain_segment_def dest: in_set_butlastD)

lemma resolve_sandbox:
  assumes "D \<noteq> []" "hd D = CHR ''/''" "plain_segment U"
  shows "path_resolve [D, ''..'', ''uploads'', U] = render_path (butlast (path_segments D) @ [''uploads'', U])"
  using assms plain_segmentD[OF assms(3)] segments_sandbox[OF assms(3), of "''/''" D]
  by (simp add: path_resolve_def)

lemma join_sandbox:
  assumes "D \<noteq> []" "hd D = CHR ''/''" "plain_segment U"
  shows "path_join [D, ''..'', ''uploads'', U] = render_path (butlast (path_segments D) @ [''uploads'', U])"
  using assms plain_segmentD[OF assms(3)] segments_sandbox[OF assms(3), of "[]" D]
  by (simp add: path_join_def path_normalize_def Let_def)

lemma render_path_abs: "render_path segs \<noteq> [] \<and> hd (render_path segs) = CHR ''/''"
  by (cases segs) (auto simp: render_path_def)

lemma segments_child:
  assumes "B \<noteq> []" "\<forall>x\<in>set B. plain_segment x" "plain_segment N" "t = [] \<or> t = ''/''"
  shows "path_segments (render_path B @ CHR ''/'' # N @ t) = B @ [N]"
proof -
  have "split_on CHR ''/'' (render_path B @ CHR ''/'' # (N @ t)) =
        split_on CHR ''/'' (render_path B) @ split_on CHR ''/'' (N @ t)"
    by (rule split_on_append)
  moreover have "split_on CHR ''/'' (N @ t) = (if t = [] then [N] else [N, []])"
    using assms(4) plain_segmentD[OF assms(3)]
      split_on_field_first[of "CHR ''/''" N "[]"] by (auto simp: split_on_no_sep)
  moreover have "foldl norm_step [] B = B"
    using foldl_norm_step_plain[OF assms(2), of "[]"] by simp
  ultimately show ?thesis
    using assms(1,2) plain_segmentD[OF assms(3)]
    by (simp add: path_segments_def split_on_render_path norm_step_def)
qed

lemma join_child:
  assumes "B \<noteq> []" "\<forall>x\<in>set B. plain_segment x" "plain_segment N"
  shows "path_join [render_path B, N] = render_path (B @ [N])"
  using assms plain_segmentD[OF assms(3)] render_path_abs[of B]
    segments_child[OF assms, of "[]"]
  by (simp add: path_join_def path_normalize_def Let_def)

lemma resolve_child:
  assumes "B \<noteq> []" "\<forall>x\<in>set B. plain_segment x" "plain_segment N"
  shows "path_resolve [render_path (B @ [N])] = render_path (B @ [N])"
  using assms render_path_abs[of "B @ [N]"] segments_child[OF assms, of "''/''"]
  by (simp add: path_resolve_def render_path_snoc)

section \<open>Where an upload is stored\<close>

lemma show_nat_no_sep: "CHR ''/'' \<notin> set (show_nat n)"
proof
  assume "CHR ''/'' \<in> set (show_nat n)"
  then have "CHR ''/'' \<in> set ''0123456789''" using show_nat_digits[of n] by (rule subsetD[rotated])
  then show False by simp
qed

lemma show_nat_no_dot: "CHR ''.'' \<notin> set (show_nat n)"
proof
  assume "CHR ''.'' \<in> set (show_nat n)"
  then have "CHR ''.'' \<in> set ''0123456789''" using show_nat_digits[of n] by (rule subsetD[rotated])
  then show False by simp
qed

lemma user_dir_plain: "plain_segment (''user_'' @ show_int uid)"
  using show_nat_no_sep by (simp add: plain_segment_def show_int_def)

lemma allowed_char_not_sep: "allowed_char c \<Longrightarrow> c \<noteq> CHR ''/''"
  by (auto simp: allowed_char_def Let_def)

lemma safeName_chars: "c \<in> set (safeName name) \<Longrightarrow> allowed_char c"
  by (auto simp: safeName_def allowed_char_def)

lemma uniqueName_plain: "plain_segment (uniqueName now name)"
proof -
  have a: "CHR ''/'' \<notin> set (show_nat now)" by (rule show_nat_no_sep)
  have b: "CHR ''/'' \<notin> set (safeName name)"
    using safeName_chars allowed_char_not_sep by blast
  have c: "CHR ''_'' \<in> set (show_nat now @ CHR ''_'' # safeName name)" by simp
  have "show_nat now @ CHR ''_'' # safeName name \<noteq> ''.''"
  proof
    assume e: "show_nat now @ CHR ''_'' # safeName name = ''.''"
    show False using c unfolding e by simp
  qed
  moreover have "show_nat now @ CHR ''_'' # safeName name \<noteq> ''..''"
  proof
    assume e: "show_nat now @ CHR ''_'' # safeName name = ''..''"
    show False using c unfolding e by simp
  qed
  ultimately show ?thesis using a b by (simp add: plain_segment_def uniqueName_def)
qed

lemma safeBase_eq:
  assumes "dirname \<noteq> []" "hd dirname = CHR ''/''"
  shows "safeBase dirname uid = render_path (sandbox_segments dirname uid)"
  unfolding safeBase_def sandbox_segments_def
  by (rule resolve_sandbox[OF assms user_dir_plain])

lemma destination_eq:
  assumes "dirname \<noteq> []" "hd dirname = CHR ''/''"
  shows "destination dirname uid = render_path (sandbox_segments dirname uid)"
  unfolding destination_def sandbox_segments_def
  by (rule join_sandbox[OF assms user_dir_plain])

lemma sandbox_segments_plain:
  "sandbox_segments dirname uid \<noteq> [] \<and> (\<forall>x\<in>set (sandbox_segments dirname uid). plain_segment x)"
  using sandbox_base_plain[OF user_dir_plain, of dirname uid]
  by (simp add: sandbox_segments_def)

lemma stored_path_eq:
  assumes "dirname \<noteq> []" "hd dirname = CHR ''/''"
  shows "stored_path dirname uid now name =
         render_path (sandbox_segments dirname uid @ [uniqueName now name])"
  using sandbox_segments_plain[of dirname uid]
  by (simp add: stored_path_def destination_eq[OF assms] join_child uniqueName_plain)

lemma resolve_stored_path:
  assumes "dirname \<noteq> []" "hd dirname = CHR ''/''"
  shows "path_resolve [stored_path dirname uid now name] = stored_path dirname uid now name"
  using sandbox_segments_plain[of dirname uid]
  by (simp add: stored_path_eq[OF assms] resolve_child uniqueName_plain)

lemma guard_passes:
  assumes "dirname \<noteq> []" "hd dirname = CHR ''/''"
  shows "prefix (safeBase dirname uid) (path_resolve [stored_path dirname uid now name])"
proof -
  have "prefix (safeBase dirname uid) (stored_path dirname uid now name)"
    using sandbox_segments_plain[of dirname uid]
    by (simp add: stored_path_eq[OF assms] safeBase_eq[OF assms] render_path_snoc)
  then show ?thesis by (simp only: resolve_stored_path[OF assms])
qed

lemma stored_is_descendant:
  assumes "dirname \<noteq> []" "hd dirname = CHR ''/''"
  shows "is_descendant (safeBase dirname uid) (stored_path dirname uid now name)"
proof -
  have p: "\<forall>x\<in>set (sandbox_segments dirname uid @ [uniqueName now name]). plain_segment x"
    using sandbox_segments_plain[of dirname uid] uniqueName_plain by simp
  show ?thesis
    using sandbox_segments_plain[of dirname uid]
    by (simp add: is_descendant_def stored_path_eq[OF assms] safeBase_eq[OF assms]
        path_segments_render_path p strict_prefix_def del: set_append)
qed

lemma map_of_fs_write: "map_of (fs_write fs p c) q = (if q = p then Some c else map_of fs q)"
  by (induction fs) (auto simp: fs_write_def)

section \<open>What an upload does\<close>

lemma header_columns_nonempty: "header_columns text \<noteq> []"
  by (simp add: header_columns_def split_on_nonempty)

lemma hd_split_on: "hd (split_on c xs) = takeWhile (\<lambda>x. x \<noteq> c) xs"
  by (induction xs) (auto split: list.splits simp: split_on_nonempty)

lemma upload_post_stored:
  assumes "dirname \<noteq> []" "hd dirname = CHR ''/''"
  shows "upload_post dirname st uid now (Some f) =
     (if \<not> fileFilter f then ((400, Error ''Only CSV files are allowed''), st)
      else if file_size f > 10 * 1024 * 1024
      then ((413, Error (''File too large '' @ em_dash @ '' 10 MB max'')), st)
      else
        let stored = stored_path dirname uid now (originalname f);
            st1 = st\<lparr>files := fs_write (files st) stored (content f)\<rparr>;
            cols = header_columns (content f)
        in if hd cols = [] then ((400, Error ''CSV has no valid column headers''), st1)
           else if \<not> db_up st \<or> uid \<notin> user_id ` set (users st)
           then ((500, Error ''Failed to process upload''), st1)
           else ((201, Uploaded (next_id (map ds_id (datasets st))) (originalname f) (schema_object cols)),
                 st1\<lparr>datasets := datasets st @
                   [\<lparr>ds_id = next_id (map ds_id (datasets st)), ds_user_id = uid,
                     file_path = stored, original_name = originalname f,
                     schema_json = Some (json_stringify (schema_object cols)),
                     uploaded_at = sql_now now\<rparr>]\<rparr>))"
  using guard_passes[OF assms, of uid now "originalname f"]
  by (simp add: upload_post_def Let_def resolve_stored_path[OF assms] extractSchema_def
      map_of_fs_write header_columns_nonempty)


lemmas path_eval = stored_path_def destination_def safeBase_def path_join_def path_resolve_def
  path_normalize_def path_segments_def norm_step_def render_path_def uniqueName_def safeName_def
  allowed_char_def show_int_def show_nat.simps digit_char_def Let_def

lemma upload_none: "upload_post dirname st uid now None = ((400, Error ''No file uploaded''), st)"
  by (simp add: upload_post_def)

lemma upload_post_files:
  assumes "dirname \<noteq> []" "hd dirname = CHR ''/''"
  shows "files (snd (upload_post dirname st uid now (Some f))) = files st \<or>
         files (snd (upload_post dirname st uid now (Some f))) =
           fs_write (files st) (stored_path dirname uid now (originalname f)) (content f)"
  by (simp add: upload_post_stored[OF assms] Let_def)

section \<open>The upload sandbox\<close>

text \<open>
  Claim C2. Whatever name an upload declares, the file is written at the user's directory
  followed by one segment, the clock and the name with every character outside
  \<open>[a-zA-Z0-9._-]\<close> replaced: the resolved path of the stored file lies below the user's
  directory, the handler's prefix test on it succeeds, and an upload changes the file
  system at that path and nowhere else.
\<close>

theorem upload_stays_in_sandbox:
  assumes "dirname \<noteq> []" and "hd dirname = CHR ''/''"
  shows "stored_path dirname uid now name =
           safeBase dirname uid @ ''/'' @ show_nat now @ ''_'' @ safeName name
       \<and> (\<forall>c\<in>set (safeName name). allowed_char c)
       \<and> is_descendant (safeBase dirname uid) (path_resolve [stored_path dirname uid now name])
       \<and> prefix (safeBase dirname uid) (path_resolve [stored_path dirname uid now name])
       \<and> files (snd (upload_post dirname st uid now None)) = files st
       \<and> (\<forall>p. map_of (files (snd (upload_post dirname st uid now (Some f)))) p \<noteq> map_of (files st) p
            \<longrightarrow> p = stored_path dirname uid now (originalname f)
              \<and> is_descendant (safeBase dirname uid) (path_resolve [p]))"
proof -
  have a: "stored_path dirname uid now name =
           safeBase dirname uid @ ''/'' @ show_nat now @ ''_'' @ safeName name"
    using sandbox_segments_plain[of dirname uid]
    by (simp add: stored_path_eq[OF assms] safeBase_eq[OF assms] render_path_snoc uniqueName_def)
  have b: "\<forall>c\<in>set (safeName name). allowed_char c"
    using safeName_chars by blast
  have c: "is_descendant (safeBase dirname uid) (path_resolve [stored_path dirname uid now nm])" for nm
    using stored_is_descendant[OF assms, of uid now nm] by (simp only: resolve_stored_path[OF assms])
  have d: "prefix (safeBase dirname uid) (path_resolve [stored_path dirname uid now name])"
    by (rule guard_passes[OF assms])
  have e: "files (snd (upload_post dirname st uid now None)) = files st"
    by (simp add: upload_none)
  have f: "p = stored_path dirname uid now (originalname f)
              \<and> is_descendant (safeBase dirname uid) (path_resolve [p])"
    if "map_of (files (snd (upload_post dirname st uid now (Some f)))) p \<noteq> map_of (files st) p" for p
  proof -
    have "p = stored_path dirname uid now (originalname f)"
      using that upload_post_files[OF assms, of st uid now f]
      by (auto simp: map_of_fs_write split: if_splits)
    then show ?thesis using c by simp
  qed
  show ?thesis using a b c d e f by blast
qed

text \<open>The traversal name \<open>../../evil.csv\<close>, uploaded by user 7.\<close>

theorem upload_stays_in_sandbox_witness:
  "demo_dirname \<noteq> [] \<and> hd demo_dirname = CHR ''/''
   \<and> stored_path demo_dirname 7 1699000123456 ''../../evil.csv'' =
       ''/srv/app/uploads/user_7/1699000123456_.._.._evil.csv''
   \<and> safeBase demo_dirname 7 = ''/srv/app/uploads/user_7''
   \<and> is_descendant ''/srv/app/uploads/user_7'' ''/srv/app/uploads/user_7/1699000123456_.._.._evil.csv''"
proof -
  have h1: "demo_dirname \<noteq> []" and h2: "hd demo_dirname = CHR ''/''"
    by (simp_all add: demo_dirname_def)
  have s: "stored_path demo_dirname 7 1699000123456 ''../../evil.csv'' =
       ''/srv/app/uploads/user_7/1699000123456_.._.._evil.csv''"
    by (simp add: demo_dirname_def path_eval)
  have b: "safeBase demo_dirname 7 = ''/srv/app/uploads/user_7''"
    by (simp add: demo_dirname_def path_eval)
  have "is_descendant (safeBase demo_dirname 7)
          (path_resolve [stored_path demo_dirname 7 1699000123456 ''../../evil.csv''])"
    using upload_stays_in_sandbox[OF h1 h2, of 7 1699000123456 "''../../evil.csv''"] by blast
  then have "is_descendant (safeBase demo_dirname 7)
          (stored_path demo_dirname 7 1699000123456 ''../../evil.csv'')"
    by (simp only: resolve_stored_path[OF h1 h2])
  then have "is_descendant ''/srv/app/uploads/user_7'' ''/srv/app/uploads/user_7/1699000123456_.._.._evil.csv''"
    by (simp only: s b)
  then show ?thesis using h1 h2 s b by simp
qed

section \<open>Uploads that fail after the file is written\<close>

text \<open>A file whose first line is empty is refused with status 400, and it is still in the
  upload directory afterwards: the handler deletes nothing on this path.\<close>

theorem failed_upload_keeps_file_counterexample:
  "fst (upload_post demo_dirname empty_world 7 1699000123456 (Some headerless_csv)) =
     (400, Error ''CSV has no valid column headers'')
   \<and> map_of (files (snd (upload_post demo_dirname empty_world 7 1699000123456 (Some headerless_csv))))
       ''/srv/app/uploads/user_7/1699000123456_empty.csv'' = Some (CHR 0x0A # ''1,2,3'')"
proof -
  have h1: "demo_dirname \<noteq> []" and h2: "hd demo_dirname = CHR ''/''"
    by (simp_all add: demo_dirname_def)
  have s: "stored_path demo_dirname 7 1699000123456 ''empty.csv'' =
       ''/srv/app/uploads/user_7/1699000123456_empty.csv''"
    by (simp add: demo_dirname_def path_eval)
  have f: "fileFilter headerless_csv"
    by (simp add: headerless_csv_def fileFilter_def toLowerCase_def lower_char_def suffix_def Let_def)
  have c: "hd (header_columns (content headerless_csv)) = []"
    by (simp add: headerless_csv_def header_columns_def trim_def strip_quotes_def)
  have n: "originalname headerless_csv = ''empty.csv''" "file_size headerless_csv = 6"
    "content headerless_csv = CHR 0x0A # ''1,2,3''"
    by (simp_all add: headerless_csv_def)
  show ?thesis
    using f c by (simp add: upload_post_stored[OF h1 h2] Let_def n s map_of_fs_write)
qed

text \<open>
  Claim C3, as amended. When the header of a stored upload is unusable, or the database
  does not take the \<open>INSERT\<close> (it does not answer, or no user has the caller's id), the
  caller gets an error (400 for the header, 500 for the database), the \<open>datasets\<close> table is
  as it was, and the file stays where multer wrote it.
\<close>

theorem failed_upload_leaves_no_record:
  assumes "dirname \<noteq> []" and "hd dirname = CHR ''/''"
    and "fileFilter f" and "file_size f \<le> 10 * 1024 * 1024"
    and "hd (header_columns (content f)) = [] \<or> \<not> db_up st \<or> uid \<notin> user_id ` set (users st)"
  shows "fst (upload_post dirname st uid now (Some f)) =
           (if hd (header_columns (content f)) = []
            then (400, Error ''CSV has no valid column headers'')
            else (500, Error ''Failed to process upload''))
       \<and> datasets (snd (upload_post dirname st uid now (Some f))) = datasets st
       \<and> map_of (files (snd (upload_post dirname st uid now (Some f))))
           (stored_path dirname uid now (originalname f)) = Some (content f)"
  using assms(3-5) by (auto simp: upload_post_stored[OF assms(1,2)] Let_def map_of_fs_write)

text \<open>A good file, uploaded while the database is down.\<close>

theorem failed_upload_leaves_no_record_witness:
  "demo_dirname \<noteq> [] \<and> hd demo_dirname = CHR ''/'' \<and> fileFilter traversal_csv
   \<and> file_size traversal_csv \<le> 10 * 1024 * 1024
   \<and> \<not> db_up (empty_world\<lparr>db_up := False\<rparr>)
   \<and> fst (upload_post demo_dirname (empty_world\<lparr>db_up := False\<rparr>) 7 1699000123456 (Some traversal_csv)) =
       (500, Error ''Failed to process upload'')
   \<and> datasets (snd (upload_post demo_dirname (empty_world\<lparr>db_up := False\<rparr>) 7 1699000123456
         (Some traversal_csv))) = []
   \<and> map_of (files (snd (upload_post demo_dirname (empty_world\<lparr>db_up := False\<rparr>) 7 1699000123456
         (Some traversal_csv))))
       (stored_path demo_dirname 7 1699000123456 ''../../evil.csv'') = Some ''name,age,city''"
proof -
  have h1: "demo_dirname \<noteq> []" and h2: "hd demo_dirname = CHR ''/''"
    by (simp_all add: demo_dirname_def)
  have f: "fileFilter traversal_csv"
    by (simp add: traversal_csv_def fileFilter_def toLowerCase_def lower_char_def suffix_def Let_def)
  have z: "file_size traversal_csv \<le> 10 * 1024 * 1024" by (simp add: traversal_csv_def)
  have d: "\<not> db_up (empty_world\<lparr>db_up := False\<rparr>)" by simp
  have c: "hd (header_columns (content traversal_csv)) \<noteq> []"
    by (simp add: traversal_csv_def header_columns_def trim_def is_space_def strip_quotes_def Let_def)
  have n: "originalname traversal_csv = ''../../evil.csv''"
    "content traversal_csv = ''name,age,city''"
    by (simp_all add: traversal_csv_def)
  show ?thesis
    using failed_upload_leaves_no_record[OF h1 h2 f z disjI2[OF disjI1[OF d]], of 7 1699000123456]
      h1 h2 f z c
    by (simp add: n empty_world_def)
qed

section \<open>Schema extraction\<close>

lemma header_columns_first_line:
  "header_columns text =
     map (\<lambda>col. strip_quotes (trim col)) (split_on CHR '','' (takeWhile (\<lambda>c. c \<noteq> CHR 0x0A) text))"
  by (simp add: header_columns_def hd_split_on)

lemmas header_eval = header_columns_first_line trim_def is_space_def strip_quotes_def Let_def

lemma takeWhile_before: "c \<notin> set xs \<Longrightarrow> takeWhile (\<lambda>x. x \<noteq> c) (xs @ c # ys) = xs"
  by (induction xs) auto

lemma takeWhile_past:
  "c \<notin> set xs \<Longrightarrow> d \<noteq> c \<Longrightarrow>
   takeWhile (\<lambda>x. x \<noteq> c) (xs @ d # ys) = xs @ d # takeWhile (\<lambda>x. x \<noteq> c) ys"
  by (induction xs) auto

lemma takeWhile_whole: "c \<notin> set xs \<Longrightarrow> takeWhile (\<lambda>x. x \<noteq> c) xs = xs"
  by (induction xs) auto

lemma header_only_first_line:
  "CHR 0x0A \<notin> set line \<Longrightarrow> header_columns (line @ CHR 0x0A # rest) = header_columns line"
  by (simp add: header_columns_first_line takeWhile_before takeWhile_whole)

lemma header_single_field:
  "CHR '','' \<notin> set field \<Longrightarrow> CHR 0x0A \<notin> set field \<Longrightarrow>
   header_columns field = [strip_quotes (trim field)]"
  by (simp add: header_columns_first_line takeWhile_whole split_on_no_sep)

lemma header_next_field:
  assumes "CHR '','' \<notin> set field" "CHR 0x0A \<notin> set field"
  shows "header_columns (field @ CHR '','' # others) = strip_quotes (trim field) # header_columns others"
proof -
  have "takeWhile (\<lambda>c. c \<noteq> CHR 0x0A) (field @ CHR '','' # others) =
      field @ CHR '','' # takeWhile (\<lambda>c. c \<noteq> CHR 0x0A) others"
    using assms(2) by (intro takeWhile_past) simp_all
  then show ?thesis
    using assms(1) by (simp add: header_columns_first_line split_on_field_first)
qed

lemma trim_core:
  assumes "\<forall>c\<in>set w1. is_space c" "\<forall>c\<in>set w2. is_space c"
    and "core = [] \<or> (\<not> is_space (hd core) \<and> \<not> is_space (last core))"
  shows "trim (w1 @ core @ w2) = core"
proof (cases "core = []")
  case True
  have e: "dropWhile is_space (w1 @ w2) = []"
    using assms(1,2) by (intro iffD2[OF dropWhile_eq_Nil_conv]) auto
  have "trim (w1 @ core @ w2) = rev (dropWhile is_space (rev (dropWhile is_space (w1 @ w2))))"
    unfolding True trim_def by (simp only: append_Nil)
  also have "\<dots> = []" unfolding e by simp
  finally show ?thesis using True by simp
next
  case False
  then have ends: "\<not> is_space (hd core)" "\<not> is_space (last core)" using assms(3) by simp_all
  have "dropWhile is_space (w1 @ core @ w2) = dropWhile is_space (core @ w2)"
    using assms(1) by (simp add: dropWhile_append2)
  also have "\<dots> = core @ w2" using False ends(1) by (cases core) simp_all
  finally have front: "dropWhile is_space (w1 @ core @ w2) = core @ w2" .
  have "dropWhile is_space (rev w2 @ rev core) = dropWhile is_space (rev core)"
    by (rule dropWhile_append2) (use assms(2) in auto)
  also have "\<dots> = rev core"
    using False ends(2) by (cases "rev core") (simp_all add: last_rev[symmetric] hd_rev)
  finally show ?thesis by (simp add: trim_def front)
qed

lemma strip_quotes_cases:
  "strip_quotes (CHR 0x22 # s @ [CHR 0x22]) = s"
  "s = [] \<or> last s \<noteq> CHR 0x22 \<Longrightarrow> strip_quotes (CHR 0x22 # s) = s"
  "s = [] \<or> hd s \<noteq> CHR 0x22 \<Longrightarrow> strip_quotes (s @ [CHR 0x22]) = s"
  "s = [] \<or> (hd s \<noteq> CHR 0x22 \<and> last s \<noteq> CHR 0x22) \<Longrightarrow> strip_quotes s = s"
  by (cases s; auto simp: strip_quotes_def)+

text \<open>
  Claim C7. The schema is read from the first line only: what follows the first line feed
  does not matter. The line is split at its commas, in order, and each field is trimmed
  (white space is removed at both ends, up to the first and last character that is none)
  and then loses one double quote at the front and one at the end, when it has them. A file
  that starts with the line \<open>name,age,city\<close> gives those three columns, also with quotes,
  blanks and a carriage return around them. An upload whose first column is empty, as it is
  when the first line is empty, is refused with status 400 and adds no row to \<open>datasets\<close>;
  any other upload of a registered user, while the database answers, is answered with
  status 201 and the schema \<open>{columns: [...]}\<close> of its header, and that schema is stored in
  the new row.
\<close>

theorem schema_from_header_line:
  "(CHR 0x0A \<notin> set line \<longrightarrow> header_columns (line @ CHR 0x0A # rest) = header_columns line)
   \<and> (CHR '','' \<notin> set field \<and> CHR 0x0A \<notin> set field \<longrightarrow>
        header_columns field = [strip_quotes (trim field)]
        \<and> header_columns (field @ CHR '','' # others) = strip_quotes (trim field) # header_columns others)
   \<and> ((\<forall>c\<in>set w1. is_space c) \<and> (\<forall>c\<in>set w2. is_space c)
        \<and> (core = [] \<or> (\<not> is_space (hd core) \<and> \<not> is_space (last core))) \<longrightarrow>
        trim (w1 @ core @ w2) = core)
   \<and> (is_space c \<longleftrightarrow> (of_char c :: nat) \<in> {9, 10, 11, 12, 13, 32, 160})
   \<and> strip_quotes (CHR 0x22 # s @ [CHR 0x22]) = s
   \<and> (s = [] \<or> last s \<noteq> CHR 0x22 \<longrightarrow> strip_quotes (CHR 0x22 # s) = s)
   \<and> (s = [] \<or> hd s \<noteq> CHR 0x22 \<longrightarrow> strip_quotes (s @ [CHR 0x22]) = s)
   \<and> (s = [] \<or> (hd s \<noteq> CHR 0x22 \<and> last s \<noteq> CHR 0x22) \<longrightarrow> strip_quotes s = s)
   \<and> header_columns (''name,age,city'' @ CHR 0x0A # rest) = [''name'', ''age'', ''city'']
   \<and> header_columns (CHR 0x22 # ''name'' @ CHR 0x22 # '' , age ,city'' @ CHR 0x0D # CHR 0x0A # rest) =
       [''name'', ''age'', ''city'']
   \<and> (takeWhile (\<lambda>c. c \<noteq> CHR 0x0A) csv = [] \<longrightarrow> hd (header_columns csv) = [])
   \<and> (dirname \<noteq> [] \<and> hd dirname = CHR ''/'' \<and> fileFilter f \<and> file_size f \<le> 10 * 1024 * 1024 \<longrightarrow>
        (hd (header_columns (content f)) = [] \<longrightarrow>
           fst (upload_post dirname st uid now (Some f)) = (400, Error ''CSV has no valid column headers'')
           \<and> datasets (snd (upload_post dirname st uid now (Some f))) = datasets st)
      \<and> (hd (header_columns (content f)) \<noteq> [] \<and> db_up st \<and> uid \<in> user_id ` set (users st) \<longrightarrow>
           fst (upload_post dirname st uid now (Some f)) =
             (201, Uploaded (next_id (map ds_id (datasets st))) (originalname f)
                     (JObj [(''columns'', JArr (map JStr (header_columns (content f))))]))
           \<and> datasets (snd (upload_post dirname st uid now (Some f))) =
               datasets st @
               [\<lparr>ds_id = next_id (map ds_id (datasets st)), ds_user_id = uid,
                 file_path = stored_path dirname uid now (originalname f),
                 original_name = originalname f,
                 schema_json = Some (json_stringify
                   (JObj [(''columns'', JArr (map JStr (header_columns (content f))))])),
                 uploaded_at = now div 1000\<rparr>]))"
proof -
  have k1: "CHR 0x0A \<notin> set line \<longrightarrow> header_columns (line @ CHR 0x0A # rest) = header_columns line"
    by (simp add: header_only_first_line)
  have k2: "CHR '','' \<notin> set field \<and> CHR 0x0A \<notin> set field \<longrightarrow>
        header_columns field = [strip_quotes (trim field)]
        \<and> header_columns (field @ CHR '','' # others) = strip_quotes (trim field) # header_columns others"
    using header_single_field[of field] header_next_field[of field others] by blast
  have k3: "(\<forall>c\<in>set w1. is_space c) \<and> (\<forall>c\<in>set w2. is_space c)
        \<and> (core = [] \<or> (\<not> is_space (hd core) \<and> \<not> is_space (last core))) \<longrightarrow>
        trim (w1 @ core @ w2) = core"
    using trim_core[of w1 w2 core] by blast
  have k4: "is_space c \<longleftrightarrow> (of_char c :: nat) \<in> {9, 10, 11, 12, 13, 32, 160}"
    unfolding is_space_def Let_def by (simp only: insert_iff empty_iff) arith
  have k5: "strip_quotes (CHR 0x22 # s @ [CHR 0x22]) = s"
    by (rule strip_quotes_cases(1))
  have k6: "s = [] \<or> last s \<noteq> CHR 0x22 \<longrightarrow> strip_quotes (CHR 0x22 # s) = s"
    using strip_quotes_cases(2)[of s] by blast
  have k7: "s = [] \<or> hd s \<noteq> CHR 0x22 \<longrightarrow> strip_quotes (s @ [CHR 0x22]) = s"
    using strip_quotes_cases(3)[of s] by blast
  have k8: "s = [] \<or> (hd s \<noteq> CHR 0x22 \<and> last s \<noteq> CHR 0x22) \<longrightarrow> strip_quotes s = s"
    using strip_quotes_cases(4)[of s] by blast
  have k9: "header_columns (''name,age,city'' @ CHR 0x0A # rest) = [''name'', ''age'', ''city'']"
    by (simp add: header_eval)
  have k10: "header_columns (CHR 0x22 # ''name'' @ CHR 0x22 # '' , age ,city'' @ CHR 0x0D # CHR 0x0A # rest) =
       [''name'', ''age'', ''city'']"
    by (simp add: header_eval)
  have k11: "takeWhile (\<lambda>c. c \<noteq> CHR 0x0A) csv = [] \<longrightarrow> hd (header_columns csv) = []"
    by (simp add: header_eval)
  have k12: "dirname \<noteq> [] \<and> hd dirname = CHR ''/'' \<and> fileFilter f \<and> file_size f \<le> 10 * 1024 * 1024 \<longrightarrow>
        (hd (header_columns (content f)) = [] \<longrightarrow>
           fst (upload_post dirname st uid now (Some f)) = (400, Error ''CSV has no valid column headers'')
           \<and> datasets (snd (upload_post dirname st uid now (Some f))) = datasets st)
      \<and> (hd (header_columns (content f)) \<noteq> [] \<and> db_up st \<and> uid \<in> user_id ` set (users st) \<longrightarrow>
           fst (upload_post dirname st uid now (Some f)) =
             (201, Uploaded (next_id (map ds_id (datasets st))) (originalname f)
                     (JObj [(''columns'', JArr (map JStr (header_columns (content f))))]))
           \<and> datasets (snd (upload_post dirname st uid now (Some f))) =
               datasets st @
               [\<lparr>ds_id = next_id (map ds_id (datasets st)), ds_user_id = uid,
                 file_path = stored_path dirname uid now (originalname f),
                 original_name = originalname f,
                 schema_json = Some (json_stringify
                   (JObj [(''columns'', JArr (map JStr (header_columns (content f))))])),
                 uploaded_at = now div 1000\<rparr>])"
  proof (intro impI, elim conjE)
    assume abs: "dirname \<noteq> []" "hd dirname = CHR ''/''"
      and ok: "fileFilter f" "file_size f \<le> 10 * 1024 * 1024"
    show "(hd (header_columns (content f)) = [] \<longrightarrow>
           fst (upload_post dirname st uid now (Some f)) = (400, Error ''CSV has no valid column headers'')
           \<and> datasets (snd (upload_post dirname st uid now (Some f))) = datasets st)
      \<and> (hd (header_columns (content f)) \<noteq> [] \<and> db_up st \<and> uid \<in> user_id ` set (users st) \<longrightarrow>
           fst (upload_post dirname st uid now (Some f)) =
             (201, Uploaded (next_id (map ds_id (datasets st))) (originalname f)
                     (JObj [(''columns'', JArr (map JStr (header_columns (content f))))]))
           \<and> datasets (snd (upload_post dirname st uid now (Some f))) =
               datasets st @
               [\<lparr>ds_id = next_id (map ds_id (datasets st)), ds_user_id = uid,
                 file_path = stored_path dirname uid now (originalname f),
                 original_name = originalname f,
                 schema_json = Some (json_stringify
                   (JObj [(''columns'', JArr (map JStr (header_columns (content f))))])),
                 uploaded_at = now div 1000\<rparr>])"
      using ok by (simp add: upload_post_stored[OF abs] Let_def schema_object_def sql_now_def)
  qed
  from k1 k2 k3 k4 k5 k6 k7 k8 k9 k10 k11 k12 show ?thesis
    by (intro conjI) assumption+
qed

text \<open>The two uploads of the claim, by the registered user 7, and the second one again by
  user 9, whom the \<open>users\<close> table does not know.\<close>

theorem schema_from_header_line_witness:
  "demo_dirname \<noteq> [] \<and> hd demo_dirname = CHR ''/'' \<and> fileFilter headerless_csv
   \<and> file_size headerless_csv \<le> 10 * 1024 * 1024
   \<and> takeWhile (\<lambda>c. c \<noteq> CHR 0x0A) (content headerless_csv) = []
   \<and> hd (header_columns (content headerless_csv)) = []
   \<and> fst (upload_post demo_dirname registered_world 7 1699000123456 (Some headerless_csv)) =
       (400, Error ''CSV has no valid column headers'')
   \<and> fileFilter traversal_csv \<and> file_size traversal_csv \<le> 10 * 1024 * 1024
   \<and> header_columns (content traversal_csv) = [''name'', ''age'', ''city'']
   \<and> db_up registered_world \<and> 7 \<in> user_id ` set (users registered_world)
   \<and> fst (upload_post demo_dirname registered_world 7 1699000123456 (Some traversal_csv)) =
       (201, Uploaded 1 ''../../evil.csv''
          (JObj [(''columns'', JArr [JStr ''name'', JStr ''age'', JStr ''city''])]))
   \<and> map schema_json (datasets (snd (upload_post demo_dirname registered_world 7 1699000123456
         (Some traversal_csv)))) = [Some ''{\"columns\":[\"name\",\"age\",\"city\"]}'']
   \<and> fst (upload_post demo_dirname registered_world 9 1699000123456 (Some traversal_csv)) =
       (500, Error ''Failed to process upload'')"
proof -
  have h: "demo_dirname \<noteq> [] \<and> hd demo_dirname = CHR ''/''"
    by (simp add: demo_dirname_def)
  have f1: "fileFilter headerless_csv \<and> file_size headerless_csv \<le> 10 * 1024 * 1024
      \<and> takeWhile (\<lambda>c. c \<noteq> CHR 0x0A) (content headerless_csv) = []"
    by (simp add: headerless_csv_def fileFilter_def toLowerCase_def lower_char_def suffix_def Let_def)
  have f2: "fileFilter traversal_csv \<and> file_size traversal_csv \<le> 10 * 1024 * 1024
      \<and> db_up registered_world \<and> 7 \<in> user_id ` set (users registered_world)
      \<and> 9 \<notin> user_id ` set (users registered_world)"
    by (simp add: traversal_csv_def empty_world_def registered_world_def fileFilter_def
        toLowerCase_def lower_char_def suffix_def Let_def)
  have hc: "header_columns (content traversal_csv) = [''name'', ''age'', ''city'']"
    by (simp add: traversal_csv_def header_eval)
  have n: "next_id (map ds_id (datasets registered_world)) = 1"
    "datasets registered_world = []"
    "originalname traversal_csv = ''../../evil.csv''"
    by (simp_all add: next_id_def empty_world_def registered_world_def traversal_csv_def)
  have nine: "fst (upload_post demo_dirname registered_world 9 1699000123456 (Some traversal_csv)) =
       (500, Error ''Failed to process upload'')"
    using f2 hc h by (simp add: upload_post_stored Let_def)
  note t = schema_from_header_line[where dirname=demo_dirname and st=registered_world
        and uid=7 and now=1699000123456]
  show ?thesis
    using t[where f=headerless_csv and csv="content headerless_csv"] t[where f=traversal_csv]
      h f1 f2 nine by (simp add: n hc quote_string_def quote_char_def Let_def next_id_def)
qed

section \<open>The health probe\<close>

text \<open>
  Claim C10. For every state of the database and every outcome of the request to the
  analysis service, the health probe answers with status 200 and the three statuses; the
  overall status is \<open>ok\<close> when \<open>SELECT 1\<close> succeeds and \<open>degraded\<close> when it does not.
\<close>

theorem health_probe_total:
  "health_get st py_health now =
     (200, HealthReport (if db_up st then ''ok'' else ''degraded'')
             (if db_up st then ''connected'' else ''error'')
             (case py_health of Inl e \<Rightarrow> ''unavailable'' | Inr u \<Rightarrow> ''connected'') now)"
  by (cases py_health) (simp_all add: health_get_def select_one_def Let_def)

section \<open>Login\<close>




section \<open>What the chat handler does\<close>

lemma upload_post_tables:
  "chat_history (snd (upload_post dirname st uid now fo)) = chat_history st \<and>
   (datasets (snd (upload_post dirname st uid now fo)) = datasets st \<or>
    (\<exists>row. datasets (snd (upload_post dirname st uid now fo)) = datasets st @ [row] \<and>
       ds_id row = next_id (map ds_id (datasets st)) \<and> ds_user_id row = uid))"
  by (auto simp: upload_post_def Let_def split: option.splits)

lemma find_owned_datasetD:
  "find_owned_dataset st i uid = Some d \<Longrightarrow> d \<in> set (datasets st) \<and> ds_id d = i \<and> ds_user_id d = uid"
  by (auto simp: find_owned_dataset_def find_Some_iff)

lemma find_owned_dataset_None:
  "find_owned_dataset st i uid = None \<longleftrightarrow> (\<forall>d\<in>set (datasets st). \<not> (ds_id d = i \<and> ds_user_id d = uid))"
  by (auto simp: find_owned_dataset_def find_None_iff)

text \<open>The chat handler after its guards on the body.\<close>

lemma chat_post_valid:
  assumes "dataset_id req = Some p" "\<not> id_falsy (Some p)" "question req = Some (JStr q)"
    "trim q \<noteq> []" "length q \<le> 500"
  shows "chat_post h py st uid now req = ask h py st uid now p q (chat_context req)"
proof -
  have "q \<noteq> []" using assms(4) by (auto simp: trim_def)
  then show ?thesis using assms by (simp add: chat_post_def)
qed

lemma chat_post_invalid:
  assumes "id_falsy (dataset_id req) \<or> (\<forall>q. question req = Some (JStr q) \<longrightarrow> trim q = [] \<or> length q > 500)"
  shows "snd (chat_post h py st uid now req) = st \<and> fst (fst (chat_post h py st uid now req)) = 400"
  using assms
  by (auto simp: chat_post_def split: option.splits json.splits)

lemma ask_frame:
  "datasets (snd (ask h py st uid now p q ctx)) = datasets st \<and>
   users (snd (ask h py st uid now p q ctx)) = users st \<and>
   files (snd (ask h py st uid now p q ctx)) = files st \<and>
   db_up (snd (ask h py st uid now p q ctx)) = db_up st"
  by (auto simp: ask_def Let_def split: option.splits upstream.splits)

lemma chat_post_frame:
  "datasets (snd (chat_post h py st uid now req)) = datasets st \<and>
   users (snd (chat_post h py st uid now req)) = users st \<and>
   files (snd (chat_post h py st uid now req)) = files st \<and>
   db_up (snd (chat_post h py st uid now req)) = db_up st"
  using ask_frame[of h py st uid now]
  by (auto simp: chat_post_def split: option.splits json.splits)

lemma chat_catch_status:
  "fst (chat_catch c) = (if c = Some ''ECONNABORTED'' then 504 else if c = Some ''ECONNREFUSED'' then 503 else 500)"
  by (simp add: chat_catch_def)

lemma ask_at_service:
  assumes "db_up st" "sql_int h p = Some i" "find_owned_dataset st i uid = Some d"
    "decode_column (h_parse h) (schema_json d) = Some schema" "usable_schema schema"
  shows "ask h py st uid now p q ctx =
     (case py (analysis_request d schema q ctx) of
        Failed c \<Rightarrow>
          (chat_catch c, st\<lparr>analyze_log := analyze_log st @ [analysis_request d schema q ctx]\<rparr>)
      | Replied r \<Rightarrow>
          ((200, chat_answer r),
           st\<lparr>analyze_log := analyze_log st @ [analysis_request d schema q ctx],
              chat_history := chat_history st @ [history_entry st uid i q r now]\<rparr>))"
  using assms by (simp add: ask_def Let_def history_entry_def split: upstream.splits)

lemma ask_before_service:
  assumes "\<not> db_up st \<or> sql_int h p = None
     \<or> (\<exists>i. sql_int h p = Some i \<and> (find_owned_dataset st i uid = None
        \<or> (\<exists>d. find_owned_dataset st i uid = Some d \<and>
             (decode_column (h_parse h) (schema_json d) = None
              \<or> (\<exists>v. decode_column (h_parse h) (schema_json d) = Some v \<and> \<not> usable_schema v)))))"
  shows "snd (ask h py st uid now p q ctx) = st \<and> fst (fst (ask h py st uid now p q ctx)) \<in> {400, 404, 500}"
  using assms by (auto simp: ask_def chat_catch_def)

lemma ask_outcome:
  "\<exists>reply st'. ask h py st uid now p q ctx = (reply, st') \<and>
     ((st' = st \<and> fst reply \<in> {400, 404, 500}) \<or>
      (\<exists>areq. analyze_log st' = analyze_log st @ [areq] \<and>
         (case py areq of
            Replied r \<Rightarrow>
              fst reply = 200 \<and>
              (\<exists>row. chat_history st' = chat_history st @ [row] \<and> ch_user_id row = uid \<and>
                 sql_int h p = Some (ch_dataset_id row) \<and> query row = q \<and>
                 response row = Some (or_empty (a_answer r)) \<and>
                 code row = Some (or_empty (a_code r)))
          | Failed c \<Rightarrow>
              chat_history st' = chat_history st \<and> reply = chat_catch c)))"
proof (cases "db_up st \<and> (\<exists>i d v. sql_int h p = Some i \<and> find_owned_dataset st i uid = Some d \<and>
    decode_column (h_parse h) (schema_json d) = Some v \<and> usable_schema v)")
  case True
  then obtain i d v where *: "db_up st" "sql_int h p = Some i" "find_owned_dataset st i uid = Some d"
    "decode_column (h_parse h) (schema_json d) = Some v" "usable_schema v" by blast
  show ?thesis
  proof (cases "py (analysis_request d v q ctx)")
    case (Failed c)
    then show ?thesis by (auto simp: ask_at_service[OF *])
  next
    case (Replied r)
    then show ?thesis using *(2) by (auto simp: ask_at_service[OF *] history_entry_def)
  qed
next
  case False
  then have "snd (ask h py st uid now p q ctx) = st \<and> fst (fst (ask h py st uid now p q ctx)) \<in> {400, 404, 500}"
    by (intro ask_before_service) (metis option.exhaust)
  then show ?thesis by (cases "ask h py st uid now p q ctx") auto
qed

lemma chat_post_cases:
  "(snd (chat_post h py st uid now req) = st \<and> fst (fst (chat_post h py st uid now req)) = 400) \<or>
   (\<exists>p q. dataset_id req = Some p \<and> \<not> id_falsy (Some p) \<and> question req = Some (JStr q) \<and>
      trim q \<noteq> [] \<and> length q \<le> 500 \<and>
      chat_post h py st uid now req = ask h py st uid now p q (chat_context req))"
  by (cases "dataset_id req") (auto simp: chat_post_def split: option.splits json.splits)

text \<open>
  Claim C4. Every call of the chat handler ends in one of two ways. Either nothing is
  written and the analysis service is not called (the state is unchanged and the status is
  400, 404 or 500); or the service is called once, and then: when it answers, the status is
  200 and exactly one row is appended to \<open>chat_history\<close>, with the caller, the dataset id,
  the question, the answer or the empty string and the code or the empty string; when the
  call fails, no row is written and the reply is 504 for \<open>ECONNABORTED\<close>, 503 for
  \<open>ECONNREFUSED\<close> and 500 for anything else.
\<close>

theorem history_written_iff_analysis_succeeds:
  "\<exists>reply st'. chat_post h py st uid now req = (reply, st') \<and>
     ((st' = st \<and> fst reply \<in> {400, 404, 500}) \<or>
      (\<exists>areq. analyze_log st' = analyze_log st @ [areq] \<and>
         (case py areq of
            Replied r \<Rightarrow>
              fst reply = 200 \<and>
              (\<exists>row. chat_history st' = chat_history st @ [row] \<and> ch_user_id row = uid \<and>
                 sql_int h (the (dataset_id req)) = Some (ch_dataset_id row) \<and>
                 question req = Some (JStr (query row)) \<and>
                 response row = Some (or_empty (a_answer r)) \<and>
                 code row = Some (or_empty (a_code r)))
          | Failed c \<Rightarrow>
              chat_history st' = chat_history st \<and> reply = chat_catch c \<and>
              fst reply = (if c = Some ''ECONNABORTED'' then 504
                           else if c = Some ''ECONNREFUSED'' then 503 else 500))))"
proof -
  consider (rejected) "snd (chat_post h py st uid now req) = st"
      "fst (fst (chat_post h py st uid now req)) = 400"
    | (asked) p q where "dataset_id req = Some p" "question req = Some (JStr q)"
      "chat_post h py st uid now req = ask h py st uid now p q (chat_context req)"
    using chat_post_cases[of h py st uid now req] by blast
  then show ?thesis
  proof cases
    case rejected
    then show ?thesis by (cases "chat_post h py st uid now req") auto
  next
    case asked
    obtain reply st' where r: "ask h py st uid now p q (chat_context req) = (reply, st')"
      and o: "(st' = st \<and> fst reply \<in> {400, 404, 500}) \<or>
      (\<exists>areq. analyze_log st' = analyze_log st @ [areq] \<and>
         (case py areq of
            Replied r \<Rightarrow>
              fst reply = 200 \<and>
              (\<exists>row. chat_history st' = chat_history st @ [row] \<and> ch_user_id row = uid \<and>
                 sql_int h p = Some (ch_dataset_id row) \<and> query row = q \<and>
                 response row = Some (or_empty (a_answer r)) \<and>
                 code row = Some (or_empty (a_code r)))
          | Failed c \<Rightarrow>
              chat_history st' = chat_history st \<and> reply = chat_catch c))"
      using ask_outcome[of h py st uid now p q "chat_context req"] by blast
    from o show ?thesis
    proof
      assume "st' = st \<and> fst reply \<in> {400, 404, 500}"
      then show ?thesis by (simp add: asked(3) r)
    next
      assume "\<exists>areq. analyze_log st' = analyze_log st @ [areq] \<and>
         (case py areq of
            Replied r \<Rightarrow>
              fst reply = 200 \<and>
              (\<exists>row. chat_history st' = chat_history st @ [row] \<and> ch_user_id row = uid \<and>
                 sql_int h p = Some (ch_dataset_id row) \<and> query row = q \<and>
                 response row = Some (or_empty (a_answer r)) \<and>
                 code row = Some (or_empty (a_code r)))
          | Failed c \<Rightarrow>
              chat_history st' = chat_history st \<and> reply = chat_catch c)"
      then obtain areq where lg: "analyze_log st' = analyze_log st @ [areq]"
        and cs: "case py areq of
            Replied r \<Rightarrow>
              fst reply = 200 \<and>
              (\<exists>row. chat_history st' = chat_history st @ [row] \<and> ch_user_id row = uid \<and>
                 sql_int h p = Some (ch_dataset_id row) \<and> query row = q \<and>
                 response row = Some (or_empty (a_answer r)) \<and>
                 code row = Some (or_empty (a_code r)))
          | Failed c \<Rightarrow>
              chat_history st' = chat_history st \<and> reply = chat_catch c"
        by blast
      have "case py areq of
            Replied r \<Rightarrow>
              fst reply = 200 \<and>
              (\<exists>row. chat_history st' = chat_history st @ [row] \<and> ch_user_id row = uid \<and>
                 sql_int h (the (dataset_id req)) = Some (ch_dataset_id row) \<and>
                 question req = Some (JStr (query row)) \<and>
                 response row = Some (or_empty (a_answer r)) \<and>
                 code row = Some (or_empty (a_code r)))
          | Failed c \<Rightarrow>
              chat_history st' = chat_history st \<and> reply = chat_catch c \<and>
              fst reply = (if c = Some ''ECONNABORTED'' then 504
                           else if c = Some ''ECONNREFUSED'' then 503 else 500)"
      proof (cases "py areq")
        case (Replied r)
        then show ?thesis using cs asked(1,2) by auto
      next
        case (Failed c)
        then show ?thesis using cs chat_catch_status[of c] by simp
      qed
      then show ?thesis using lg by (simp add: asked(3) r)
    qed
  qed
qed

section \<open>Evaluating the concrete states\<close>

lemmas json_eval = JSON_parse_def skip_ws_def is_json_ws_def unescape_def decode_column_def
  usable_schema_def

lemma uploaded_world_eval:
  "uploaded_world =
     \<lparr>users = [\<lparr>user_id = 7, username = ''carol'', password_hash = ''$2a$10$lorac''\<rparr>,
        \<lparr>user_id = 8, username = ''dave'', password_hash = ''$2a$10$evad''\<rparr>],
      datasets = [\<lparr>ds_id = 1, ds_user_id = 7,
        file_path = ''/srv/app/uploads/user_7/1699000123456_.._.._evil.csv'',
        original_name = ''../../evil.csv'',
        schema_json = Some ''{\"columns\":[\"name\",\"age\",\"city\"]}'',
        uploaded_at = 1699000123\<rparr>],
      chat_history = [],
      files = [(''/srv/app/uploads/user_7/1699000123456_.._.._evil.csv'', ''name,age,city'')],
      db_up = True, analyze_log = []\<rparr>"
proof -
  have h1: "demo_dirname \<noteq> []" and h2: "hd demo_dirname = CHR ''/''"
    by (simp_all add: demo_dirname_def)
  have s: "stored_path demo_dirname 7 1699000123456 ''../../evil.csv'' =
       ''/srv/app/uploads/user_7/1699000123456_.._.._evil.csv''"
    by (simp add: demo_dirname_def path_eval)
  have f: "fileFilter traversal_csv"
    by (simp add: traversal_csv_def fileFilter_def toLowerCase_def lower_char_def suffix_def Let_def)
  have c: "header_columns ''name,age,city'' = [''name'', ''age'', ''city'']"
    by (simp add: header_eval)
  have n: "originalname traversal_csv = ''../../evil.csv''" "file_size traversal_csv = 13"
    "content traversal_csv = ''name,age,city''"
    by (simp_all add: traversal_csv_def)
  have j: "json_stringify (schema_object [''name'', ''age'', ''city'']) =
      ''{\"columns\":[\"name\",\"age\",\"city\"]}''"
    by (simp add: schema_object_def quote_string_def quote_char_def Let_def)
  show ?thesis
    unfolding uploaded_world_def
    using f by (simp add: upload_post_stored[OF h1 h2] Let_def n s c j empty_world_def
        registered_world_def fs_write_def next_id_def sql_now_def)
qed

lemma uploaded_schema_eval:
  "decode_column JSON_parse (Some ''{\"columns\":[\"name\",\"age\",\"city\"]}'') =
     Some (JObj [(''columns'', JArr [JStr ''name'', JStr ''age'', JStr ''city''])])"
  by (simp add: json_eval)

section \<open>Reachable states are consistent\<close>

lemma next_id_fresh: "next_id ids \<notin> set ids"
proof
  assume "next_id ids \<in> set ids"
  then have "next_id ids \<le> Max (set (0 # ids))" by simp
  also have "Max (set (0 # ids)) = fold max ids 0" by (rule Max.set_eq_fold)
  finally show False by (simp add: next_id_def)
qed

lemma upload_post_consistent:
  assumes "consistent st"
  shows "consistent (snd (upload_post dirname st uid now fo))"
proof -
  let ?st = "snd (upload_post dirname st uid now fo)"
  have ch: "chat_history ?st = chat_history st"
    using upload_post_tables[of dirname st uid now fo] by simp
  consider "datasets ?st = datasets st"
    | row where "datasets ?st = datasets st @ [row]" "ds_id row = next_id (map ds_id (datasets st))"
    using upload_post_tables[of dirname st uid now fo] by blast
  then show ?thesis
  proof cases
    case 1
    then show ?thesis using assms ch by (simp add: consistent_def)
  next
    case 2
    have "ds_id row \<notin> set (map ds_id (datasets st))"
      unfolding 2(2) by (rule next_id_fresh)
    then show ?thesis using assms ch 2(1) by (auto simp: consistent_def)
  qed
qed

lemma ask_history:
  "chat_history (snd (ask h py st uid now p q ctx)) = chat_history st \<or>
   (\<exists>i d r. find_owned_dataset st i uid = Some d \<and>
      chat_history (snd (ask h py st uid now p q ctx)) =
        chat_history st @ [history_entry st uid i q r now])"
  by (auto simp: ask_def Let_def history_entry_def split: option.splits upstream.splits)

lemma chat_post_history:
  "chat_history (snd (chat_post h py st uid now req)) = chat_history st \<or>
   (\<exists>i d r q. find_owned_dataset st i uid = Some d \<and>
      chat_history (snd (chat_post h py st uid now req)) =
        chat_history st @ [history_entry st uid i q r now])"
  using chat_post_cases[of h py st uid now req] ask_history[of h py st uid now] by metis

lemma chat_post_consistent:
  assumes "consistent st"
  shows "consistent (snd (chat_post h py st uid now req))"
proof -
  let ?st = "snd (chat_post h py st uid now req)"
  have ds: "datasets ?st = datasets st"
    using chat_post_frame[of h py st uid now req] by simp
  consider "chat_history ?st = chat_history st"
    | i d r q where "find_owned_dataset st i uid = Some d"
      "chat_history ?st = chat_history st @ [history_entry st uid i q r now]"
    using chat_post_history[of h py st uid now req] by blast
  then show ?thesis
  proof cases
    case 1
    then show ?thesis using assms ds by (simp add: consistent_def)
  next
    case 2
    have "d \<in> set (datasets st) \<and> ds_id d = i \<and> ds_user_id d = uid"
      using 2(1) by (rule find_owned_datasetD)
    then show ?thesis using assms ds 2(2) by (auto simp: consistent_def history_entry_def)
  qed
qed

lemma reachable_consistent: "reachable h st \<Longrightarrow> consistent st"
proof (induction rule: reachable.induct)
  case (fresh st)
  then show ?case by (simp add: consistent_def)
next
  case (upload st dirname uid now fo)
  then show ?case by (simp add: upload_post_consistent)
next
  case (chat st py uid now req)
  then show ?case by (simp add: chat_post_consistent)
next
  case (outage st b)
  then show ?case by (simp add: consistent_def)
next
  case (register st us)
  then show ?case by (simp add: consistent_def)
qed

lemma reachable_uploaded_world: "reachable h uploaded_world"
  unfolding uploaded_world_def
  by (rule reachable.upload, rule reachable.fresh)
    (simp_all add: empty_world_def registered_world_def)

lemma reachable_asked_world: "reachable node_host asked_world"
  unfolding asked_world_def by (rule reachable.chat, rule reachable_uploaded_world)

lemma demo_lookup:
  "db_up uploaded_world"
  "sql_int node_host (IdNum 1) = Some 1"
  "find_owned_dataset uploaded_world 1 7 = Some (hd (datasets uploaded_world))"
  "decode_column (h_parse node_host) (schema_json (hd (datasets uploaded_world))) =
     Some (JObj [(''columns'', JArr [JStr ''name'', JStr ''age'', JStr ''city''])])"
  "usable_schema (JObj [(''columns'', JArr [JStr ''name'', JStr ''age'', JStr ''city''])])"
  by (simp_all add: uploaded_world_eval find_owned_dataset_def node_host_def uploaded_schema_eval
      usable_schema_def)

lemma demo_question_valid:
  "dataset_id demo_question = Some (IdNum 1)" "\<not> id_falsy (Some (IdNum 1))"
  "question demo_question = Some (JStr ''how many rows?'')"
  "trim ''how many rows?'' \<noteq> []" "length ''how many rows?'' \<le> 500"
  "chat_context demo_question = None"
  by (simp_all add: demo_question_def trim_def is_space_def)

lemma demo_chat_eval:
  "chat_post node_host py uploaded_world 7 now demo_question =
     (case py (analysis_request (hd (datasets uploaded_world))
                 (JObj [(''columns'', JArr [JStr ''name'', JStr ''age'', JStr ''city''])])
                 ''how many rows?'' None) of
        Failed c \<Rightarrow>
          (chat_catch c, uploaded_world\<lparr>analyze_log := analyze_log uploaded_world @
             [analysis_request (hd (datasets uploaded_world))
                 (JObj [(''columns'', JArr [JStr ''name'', JStr ''age'', JStr ''city''])])
                 ''how many rows?'' None]\<rparr>)
      | Replied r \<Rightarrow>
          ((200, chat_answer r),
           uploaded_world\<lparr>analyze_log := analyze_log uploaded_world @
             [analysis_request (hd (datasets uploaded_world))
                 (JObj [(''columns'', JArr [JStr ''name'', JStr ''age'', JStr ''city''])])
                 ''how many rows?'' None],
              chat_history := chat_history uploaded_world @
                [history_entry uploaded_world 7 1 ''how many rows?'' r now]\<rparr>))"
  unfolding chat_post_valid[OF demo_question_valid(1-5)] demo_question_valid(6)
  by (rule ask_at_service[OF demo_lookup])

text \<open>A timeout and an answer, for the question of user 7 about the uploaded dataset.\<close>

theorem history_written_iff_analysis_succeeds_witness:
  "fst (chat_post node_host timeout_service uploaded_world 7 1699000125000 demo_question) =
     (504, Error (''AI Service Timeout '' @ em_dash @ '' try again later''))
   \<and> chat_history (snd (chat_post node_host timeout_service uploaded_world 7 1699000125000 demo_question)) = []
   \<and> fst (fst (chat_post node_host demo_service uploaded_world 7 1699000125000 demo_question)) = 200
   \<and> chat_history (snd (chat_post node_host demo_service uploaded_world 7 1699000125000 demo_question)) =
       [\<lparr>ch_id = 1, ch_user_id = 7, ch_dataset_id = 1, query = ''how many rows?'',
         response = Some ''3 rows'', code = Some [], created_at = 1699000125\<rparr>]"
proof -
  have a: "chat_post node_host timeout_service uploaded_world 7 1699000125000 demo_question =
      (chat_catch (Some ''ECONNABORTED''), uploaded_world\<lparr>analyze_log := analyze_log uploaded_world @
         [analysis_request (hd (datasets uploaded_world))
            (JObj [(''columns'', JArr [JStr ''name'', JStr ''age'', JStr ''city''])])
            ''how many rows?'' None]\<rparr>)"
    by (simp add: demo_chat_eval timeout_service_def)
  have b: "chat_post node_host demo_service uploaded_world 7 1699000125000 demo_question =
      ((200, chat_answer \<lparr>a_answer = Some ''3 rows'', a_data = None, a_code = None,
               a_chart_type = None\<rparr>),
       uploaded_world\<lparr>analyze_log := analyze_log uploaded_world @
         [analysis_request (hd (datasets uploaded_world))
            (JObj [(''columns'', JArr [JStr ''name'', JStr ''age'', JStr ''city''])])
            ''how many rows?'' None],
         chat_history := chat_history uploaded_world @
           [history_entry uploaded_world 7 1 ''how many rows?''
              \<lparr>a_answer = Some ''3 rows'', a_data = None, a_code = None, a_chart_type = None\<rparr>
              1699000125000]\<rparr>)"
    by (simp add: demo_chat_eval demo_service_def)
  show ?thesis
    using history_written_iff_analysis_succeeds[of node_host timeout_service uploaded_world 7
        1699000125000 demo_question]
    unfolding a b
    by (simp add: chat_catch_def history_entry_def or_empty_def next_id_def sql_now_def
        uploaded_world_eval)
qed

section \<open>The stored schema in the chat handler\<close>

text \<open>A dataset row of user 7 whose schema document is not JSON: the question of user 7 is
  answered with status 500 and \<open>Internal server error\<close>, not with the status 400 of the
  schema check.\<close>

theorem corrupt_schema_is_internal_error_counterexample:
  "fst (chat_post node_host demo_service (legacy_world (Some ''{not json'')) 7 1699000125000 demo_question) =
     (500, Error ''Internal server error'')"
proof -
  have "decode_column (h_parse node_host) (Some ''{not json'') = None"
    by (simp add: node_host_def json_eval)
  then show ?thesis
    by (simp add: chat_post_valid[OF demo_question_valid(1-5)] ask_def legacy_world_def
        empty_world_def node_host_def find_owned_dataset_def chat_catch_def)
qed

lemma usable_schema_iff:
  "usable_schema v \<longleftrightarrow>
     (\<exists>kvs cols. v = JObj kvs \<and> map_of (rev kvs) ''columns'' = Some (JArr cols) \<and> cols \<noteq> [])"
  by (cases v) (auto simp: usable_schema_def split: option.splits json.splits)

text \<open>
  Claim C5, as amended. For a well-formed question about a dataset the caller owns: when
  the stored schema decodes to something unusable (a falsy value such as \<open>null\<close>, which is
  what a \<open>NULL\<close> column decodes to; a value without a \<open>columns\<close> array; an empty
  \<open>columns\<close> array), the reply is status 400 with the re-upload message; when the stored
  document does not decode, the reply is status 500. In both cases the state is unchanged:
  the analysis service is not called and nothing is written.
\<close>

theorem unusable_schema_is_refused:
  assumes "dataset_id req = Some p" and "\<not> id_falsy (Some p)"
    and "question req = Some (JStr q)" and "trim q \<noteq> []" and "length q \<le> 500"
    and "db_up st" and "sql_int h p = Some i" and "find_owned_dataset st i uid = Some d"
  shows "(\<forall>v. decode_column (h_parse h) (schema_json d) = Some v \<and> \<not> usable_schema v \<longrightarrow>
            chat_post h py st uid now req =
              ((400, Error (''Dataset has invalid schema '' @ em_dash @ '' re-upload the CSV'')), st))
       \<and> (decode_column (h_parse h) (schema_json d) = None \<longrightarrow>
            chat_post h py st uid now req = ((500, Error ''Internal server error''), st))
       \<and> (schema_json d = None \<longrightarrow> decode_column (h_parse h) (schema_json d) = h_parse h ''null'')
       \<and> (\<forall>v. usable_schema v \<longleftrightarrow>
            (\<exists>kvs cols. v = JObj kvs \<and> map_of (rev kvs) ''columns'' = Some (JArr cols) \<and> cols \<noteq> []))"
  using assms(6-8) usable_schema_iff
  by (auto simp: chat_post_valid[OF assms(1-5)] ask_def chat_catch_def decode_column_def)

text \<open>An empty \<open>columns\<close> array, a \<open>NULL\<close> column and a document that is not JSON.\<close>

theorem unusable_schema_is_refused_witness:
  "db_up (legacy_world None)
   \<and> find_owned_dataset (legacy_world (Some ''{\"columns\":[]}'')) 1 7 \<noteq> None
   \<and> chat_post node_host demo_service (legacy_world (Some ''{\"columns\":[]}'')) 7 1699000125000
        demo_question =
       ((400, Error (''Dataset has invalid schema '' @ em_dash @ '' re-upload the CSV'')),
        legacy_world (Some ''{\"columns\":[]}''))
   \<and> chat_post node_host demo_service (legacy_world None) 7 1699000125000 demo_question =
       ((400, Error (''Dataset has invalid schema '' @ em_dash @ '' re-upload the CSV'')),
        legacy_world None)
   \<and> chat_post node_host demo_service (legacy_world (Some ''{not json'')) 7 1699000125000 demo_question =
       ((500, Error ''Internal server error''), legacy_world (Some ''{not json''))"
proof -
  have up: "db_up (legacy_world doc)" for doc by (simp add: legacy_world_def empty_world_def)
  have si: "sql_int node_host (IdNum 1) = Some 1" by simp
  have f: "find_owned_dataset (legacy_world doc) 1 7 = Some (hd (datasets (legacy_world doc)))" for doc
    by (simp add: legacy_world_def find_owned_dataset_def)
  have sj: "schema_json (hd (datasets (legacy_world doc))) = doc" for doc
    by (simp add: legacy_world_def)
  have d1: "decode_column (h_parse node_host) (Some ''{\"columns\":[]}'') = Some (JObj [(''columns'', JArr [])])"
    by (simp add: node_host_def json_eval)
  have d2: "decode_column (h_parse node_host) None = Some JNull"
    by (simp add: node_host_def json_eval)
  have d3: "decode_column (h_parse node_host) (Some ''{not json'') = None"
    by (simp add: node_host_def json_eval)
  have u: "\<not> usable_schema (JObj [(''columns'', JArr [])])" "\<not> usable_schema JNull"
    by (simp_all add: usable_schema_def)
  note t = unusable_schema_is_refused[OF demo_question_valid(1-5) up si,
      where py=demo_service and now=1699000125000]
  show ?thesis
    using t[OF f[of "Some ''{\"columns\":[]}''"]] t[OF f[of None]] t[OF f[of "Some ''{not json''"]]
      d1 d2 d3 u up
    by (simp add: sj f)
qed

section \<open>History rows hold no \<open>NULL\<close>\<close>


text \<open>
  Claim C9. In every reachable state, and after any further call of the chat handler, no
  row of \<open>chat_history\<close> holds \<open>NULL\<close> in \<open>response\<close> or \<open>code\<close>: the row that a
  successful call appends holds the answer and the code of the service, or the empty
  string where the service left the field out.
\<close>

theorem history_rows_never_null:
  assumes "reachable h st"
  shows "(\<forall>c\<in>set (chat_history st). response c \<noteq> None \<and> code c \<noteq> None)
       \<and> (\<forall>py uid now req. \<forall>c\<in>set (chat_history (snd (chat_post h py st uid now req))).
             response c \<noteq> None \<and> code c \<noteq> None)
       \<and> (\<forall>uid now req r.
             fst (fst (chat_post h (\<lambda>areq. Replied r) st uid now req)) = 200 \<longrightarrow>
             (\<exists>row. chat_history (snd (chat_post h (\<lambda>areq. Replied r) st uid now req)) =
                      chat_history st @ [row]
                \<and> response row = Some (or_empty (a_answer r))
                \<and> code row = Some (or_empty (a_code r))))
       \<and> or_empty None = []"
proof -
  have a: "\<forall>c\<in>set (chat_history st). response c \<noteq> None \<and> code c \<noteq> None"
    using reachable_consistent[OF assms] by (simp add: consistent_def)
  have b: "\<forall>c\<in>set (chat_history (snd (chat_post h py st uid now req))).
             response c \<noteq> None \<and> code c \<noteq> None" for py uid now req
    using reachable_consistent[OF reachable.chat[OF assms, of py uid now req]]
    by (simp add: consistent_def)
  have c: "\<exists>row. chat_history (snd (chat_post h (\<lambda>areq. Replied r) st uid now req)) =
                      chat_history st @ [row]
                \<and> response row = Some (or_empty (a_answer r))
                \<and> code row = Some (or_empty (a_code r))"
    if ok: "fst (fst (chat_post h (\<lambda>areq. Replied r) st uid now req)) = 200" for uid now req r
  proof -
    obtain p q where p: "dataset_id req = Some p"
      and e: "chat_post h (\<lambda>areq. Replied r) st uid now req =
          ask h (\<lambda>areq. Replied r) st uid now p q (chat_context req)"
      using chat_post_cases[of h "\<lambda>areq. Replied r" st uid now req] ok by auto
    have "fst (fst (ask h (\<lambda>areq. Replied r) st uid now p q (chat_context req))) = 200"
      using ok e by simp
    then have "\<exists>i. chat_history (snd (ask h (\<lambda>areq. Replied r) st uid now p q (chat_context req))) =
        chat_history st @ [history_entry st uid i q r now]"
      by (auto simp: ask_def Let_def chat_catch_def history_entry_def
          split: option.splits if_splits)
    then show ?thesis using e by (auto simp: history_entry_def)
  qed
  show ?thesis using a b c by (simp add: or_empty_def)
qed

lemma asked_world_eval:
  "chat_history asked_world =
     [\<lparr>ch_id = 1, ch_user_id = 7, ch_dataset_id = 1, query = ''how many rows?'',
       response = Some [], code = Some [], created_at = 1699000125\<rparr>]"
proof -
  have "chat_history (snd (chat_post node_host silent_service uploaded_world 7 1699000125000
      demo_question)) =
    chat_history uploaded_world @ [history_entry uploaded_world 7 1 ''how many rows?''
      \<lparr>a_answer = None, a_data = None, a_code = None, a_chart_type = None\<rparr> 1699000125000]"
    by (simp add: demo_chat_eval silent_service_def)
  then show ?thesis
    unfolding asked_world_def
    by (simp add: history_entry_def or_empty_def next_id_def sql_now_def uploaded_world_eval)
qed

text \<open>The service answers with neither \<open>answer\<close> nor \<open>code\<close>: both columns hold the empty
  string.\<close>

theorem history_rows_never_null_witness:
  "reachable node_host asked_world
   \<and> chat_history asked_world =
       [\<lparr>ch_id = 1, ch_user_id = 7, ch_dataset_id = 1, query = ''how many rows?'',
         response = Some [], code = Some [], created_at = 1699000125\<rparr>]
   \<and> list_all (\<lambda>c. response c \<noteq> None \<and> code c \<noteq> None) (chat_history asked_world)"
  using history_rows_never_null[OF reachable_asked_world] reachable_asked_world asked_world_eval
  by (simp add: list_all_iff)

section \<open>Tenant isolation\<close>

lemma unique_dataset_id:
  assumes "consistent st" "x \<in> set (datasets st)" "y \<in> set (datasets st)" "ds_id x = ds_id y"
  shows "x = y"
proof -
  have "inj_on ds_id (set (datasets st))"
    using assms(1) by (simp add: consistent_def distinct_map)
  then show ?thesis using assms(2-4) by (auto dest: inj_onD)
qed

lemma list_rows_ids: "list_rows parse ds = Some rows \<Longrightarrow> map l_id rows = map ds_id ds"
  by (induction ds arbitrary: rows) (auto split: option.splits)

lemma set_owned_datasets: "set (owned_datasets st uid) = {d \<in> set (datasets st). ds_user_id d = uid}"
  by (simp add: owned_datasets_def)

lemma history_joinD:
  assumes "cd \<in> set (history_join h st uid f)"
  shows "fst cd \<in> set (chat_history st) \<and> ch_user_id (fst cd) = uid \<and> history_filter h f (fst cd)
     \<and> snd cd \<in> set (datasets st) \<and> ds_id (snd cd) = ch_dataset_id (fst cd)"
  using assms by (auto simp: history_join_def)

lemma history_select_subset: "set (history_select h st uid f) \<subseteq> set (history_join h st uid f)"
  using set_take_subset[of 5 "sort_key (\<lambda>cd. - int (created_at (fst cd))) (history_join h st uid f)"]
  by (simp add: history_select_def)

lemma ask_not_found:
  assumes "db_up st"
    and "sql_int h p = None \<or> (\<exists>i. sql_int h p = Some i \<and> find_owned_dataset st i uid = None)"
  shows "ask h py st uid now p q ctx = ((404, Error ''Dataset not found''), st)"
  using assms by (auto simp: ask_def)

lemma foreign_dataset_not_found:
  assumes "consistent st" "d \<in> set (datasets st)" "ds_user_id d \<noteq> b"
  shows "find_owned_dataset st (ds_id d) b = None"
proof -
  have "\<not> (ds_id d' = ds_id d \<and> ds_user_id d' = b)" if "d' \<in> set (datasets st)" for d'
    using unique_dataset_id[OF assms(1) that assms(2)] assms(3) by auto
  then show ?thesis by (simp add: find_owned_dataset_None)
qed

text \<open>
  Claim C1. In every reachable state, a dataset row of user \<open>a\<close> is out of reach of any
  other user \<open>b\<close>: it is not among the rows that the listing selects for \<open>b\<close>, and its id is
  not in the listing's reply; a question of \<open>b\<close> that names its id changes nothing, calls no
  analysis service and is never answered with status 200; a well-formed question of \<open>b\<close>
  gets the same reply, 404 with \<open>Dataset not found\<close>, whether the id is that of \<open>a\<close>'s
  dataset, of no dataset, or no number at all; the lookup returns only rows with the given
  id and owner; and every row of \<open>b\<close>'s history, with or without a dataset filter, is
  joined with a dataset of \<open>b\<close>'s own.
\<close>

theorem tenant_isolation:
  assumes "reachable h st" and "d \<in> set (datasets st)" and "ds_user_id d = a" and "a \<noteq> b"
  shows "d \<notin> set (owned_datasets st b)
       \<and> (\<forall>rows. datasets_get (h_parse h) st b = (200, DatasetList rows) \<longrightarrow>
             ds_id d \<notin> set (map l_id rows))
       \<and> (\<forall>py now req p. dataset_id req = Some p \<and> sql_int h p = Some (ds_id d) \<longrightarrow>
             snd (chat_post h py st b now req) = st
             \<and> fst (fst (chat_post h py st b now req)) \<in> {400, 404, 500})
       \<and> (\<forall>py now req p q.
             db_up st \<and> dataset_id req = Some p \<and> \<not> id_falsy (Some p) \<and>
             question req = Some (JStr q) \<and> trim q \<noteq> [] \<and> length q \<le> 500 \<and>
             (sql_int h p = Some (ds_id d) \<or> sql_int h p = None \<or>
              (\<exists>i. sql_int h p = Some i \<and> i \<notin> set (map ds_id (datasets st)))) \<longrightarrow>
             chat_post h py st b now req = ((404, Error ''Dataset not found''), st))
       \<and> (\<forall>i u x. find_owned_dataset st i u = Some x \<longrightarrow> ds_id x = i \<and> ds_user_id x = u)
       \<and> (\<forall>f. \<forall>cd\<in>set (history_select h st b f). snd cd \<noteq> d \<and> ds_user_id (snd cd) = b)"
proof -
  have cons: "consistent st" using assms(1) by (rule reachable_consistent)
  have foreign: "find_owned_dataset st (ds_id d) b = None"
    using foreign_dataset_not_found[OF cons assms(2)] assms(3,4) by simp
  have l1: "d \<notin> set (owned_datasets st b)"
    using assms(3,4) by (simp add: set_owned_datasets)
  have l2: "ds_id d \<notin> set (map l_id rows)"
    if "datasets_get (h_parse h) st b = (200, DatasetList rows)" for rows
  proof -
    have "list_rows (h_parse h) (owned_datasets st b) = Some rows"
      using that by (auto simp: datasets_get_def split: if_splits option.splits)
    then have ids: "map l_id rows = map ds_id (owned_datasets st b)" by (rule list_rows_ids)
    show ?thesis
    proof
      assume "ds_id d \<in> set (map l_id rows)"
      then obtain d' where d': "d' \<in> set (datasets st)" "ds_user_id d' = b" "ds_id d' = ds_id d"
        unfolding ids by (auto simp: set_owned_datasets)
      then have "d' = d" using unique_dataset_id[OF cons d'(1) assms(2)] by simp
      then show False using d'(2) assms(3,4) by simp
    qed
  qed
  have l3: "snd (chat_post h py st b now req) = st
             \<and> fst (fst (chat_post h py st b now req)) \<in> {400, 404, 500}"
    if "dataset_id req = Some p" "sql_int h p = Some (ds_id d)" for py now req p
  proof -
    from chat_post_cases[of h py st b now req] show ?thesis
    proof (elim disjE exE conjE)
      assume "snd (chat_post h py st b now req) = st"
        "fst (fst (chat_post h py st b now req)) = 400"
      then show ?thesis by simp
    next
      fix p' q
      assume e: "dataset_id req = Some p'"
        "chat_post h py st b now req = ask h py st b now p' q (chat_context req)"
      have p': "p' = p" using e(1) that(1) by simp
      have "snd (ask h py st b now p q (chat_context req)) = st \<and>
          fst (fst (ask h py st b now p q (chat_context req))) \<in> {400, 404, 500}"
        by (rule ask_before_service) (use that(2) foreign in auto)
      then show ?thesis using e(2) p' by simp
    qed
  qed
  have l4: "chat_post h py st b now req = ((404, Error ''Dataset not found''), st)"
    if "db_up st" "dataset_id req = Some p" "\<not> id_falsy (Some p)" "question req = Some (JStr q)"
      "trim q \<noteq> []" "length q \<le> 500"
      "sql_int h p = Some (ds_id d) \<or> sql_int h p = None \<or>
              (\<exists>i. sql_int h p = Some i \<and> i \<notin> set (map ds_id (datasets st)))" for py now req p q
    unfolding chat_post_valid[OF that(2-6)]
  proof (rule ask_not_found[OF that(1)])
    have "find_owned_dataset st i b = None" if "i \<notin> set (map ds_id (datasets st))" for i
      using that by (auto simp: find_owned_dataset_None)
    then show "sql_int h p = None \<or> (\<exists>i. sql_int h p = Some i \<and> find_owned_dataset st i b = None)"
      using that(7) foreign by auto
  qed
  have l6: "ds_id x = i \<and> ds_user_id x = u" if "find_owned_dataset st i u = Some x" for i u x
    using find_owned_datasetD[OF that] by simp
  have l5: "snd cd \<noteq> d \<and> ds_user_id (snd cd) = b" if "cd \<in> set (history_select h st b f)" for f cd
  proof -
    have j: "fst cd \<in> set (chat_history st)" "ch_user_id (fst cd) = b"
      "snd cd \<in> set (datasets st)" "ds_id (snd cd) = ch_dataset_id (fst cd)"
      using history_joinD[of cd h st b f] that history_select_subset[of h st b f] by auto
    obtain d0 where d0: "d0 \<in> set (datasets st)" "ds_id d0 = ch_dataset_id (fst cd)"
      "ds_user_id d0 = ch_user_id (fst cd)"
      using cons j(1) by (auto simp: consistent_def)
    have "snd cd = d0" using unique_dataset_id[OF cons j(3) d0(1)] j(4) d0(2) by simp
    then show ?thesis using d0(3) j(2) assms(3,4) by auto
  qed
  show ?thesis using l1 l2 l3 l4 l5 l6 by blast
qed

lemma demo_asked_tables:
  "datasets asked_world = datasets uploaded_world" "db_up asked_world"
  unfolding asked_world_def
  using chat_post_frame[of node_host silent_service uploaded_world 7 1699000125000 demo_question]
  by (simp_all add: uploaded_world_eval)

text \<open>User 8 asks about dataset 1 of user 7, and about a dataset 2 that does not exist.\<close>

theorem tenant_isolation_witness:
  "reachable node_host asked_world
   \<and> hd (datasets asked_world) \<in> set (datasets asked_world)
   \<and> ds_user_id (hd (datasets asked_world)) = 7 \<and> (7::int) \<noteq> 8
   \<and> ds_id (hd (datasets asked_world)) = 1
   \<and> chat_post node_host demo_service asked_world 8 1699000130000 demo_question =
       ((404, Error ''Dataset not found''), asked_world)
   \<and> chat_post node_host demo_service asked_world 8 1699000130000
        (demo_question\<lparr>dataset_id := Some (IdNum 2)\<rparr>) =
       ((404, Error ''Dataset not found''), asked_world)
   \<and> datasets_get JSON_parse asked_world 8 = (200, DatasetList [])
   \<and> history_get node_host asked_world 8 None = (200, HistoryRows [])
   \<and> map dataset_name (map history_project (history_select node_host asked_world 7 None)) =
       [''../../evil.csv'']"
proof -
  have d: "datasets asked_world =
      [\<lparr>ds_id = 1, ds_user_id = 7,
        file_path = ''/srv/app/uploads/user_7/1699000123456_.._.._evil.csv'',
        original_name = ''../../evil.csv'',
        schema_json = Some ''{\"columns\":[\"name\",\"age\",\"city\"]}'',
        uploaded_at = 1699000123\<rparr>]"
    by (simp add: demo_asked_tables uploaded_world_eval)
  have m: "hd (datasets asked_world) \<in> set (datasets asked_world)"
    "ds_user_id (hd (datasets asked_world)) = 7" "ds_id (hd (datasets asked_world)) = 1"
    by (simp_all add: d)
  have ne: "(7::int) \<noteq> 8" by simp
  note t = tenant_isolation[OF reachable_asked_world m(1,2) ne]
  have q2: "dataset_id (demo_question\<lparr>dataset_id := Some (IdNum 2)\<rparr>) = Some (IdNum 2)"
    "\<not> id_falsy (Some (IdNum 2))"
    "question (demo_question\<lparr>dataset_id := Some (IdNum 2)\<rparr>) = Some (JStr ''how many rows?'')"
    by (simp_all add: demo_question_def)
  have a: "chat_post node_host demo_service asked_world 8 1699000130000 demo_question =
       ((404, Error ''Dataset not found''), asked_world)"
    using t demo_asked_tables(2) demo_question_valid(1-5) m(3) by simp
  have b: "chat_post node_host demo_service asked_world 8 1699000130000
        (demo_question\<lparr>dataset_id := Some (IdNum 2)\<rparr>) =
       ((404, Error ''Dataset not found''), asked_world)"
  proof -
    have "sql_int node_host (IdNum 2) = Some 2 \<and> 2 \<notin> set (map ds_id (datasets asked_world))"
      by (simp add: d)
    then show ?thesis
      using t demo_asked_tables(2) q2 demo_question_valid(4,5) by blast
  qed
  have c: "datasets_get JSON_parse asked_world 8 = (200, DatasetList [])"
    by (simp add: datasets_get_def owned_datasets_def d demo_asked_tables(2))
  have e: "history_get node_host asked_world 8 None = (200, HistoryRows [])"
    by (simp add: history_get_def history_select_def history_join_def asked_world_eval
        demo_asked_tables(2))
  have f: "map dataset_name (map history_project (history_select node_host asked_world 7 None)) =
       [''../../evil.csv'']"
    by (simp add: history_select_def history_join_def history_filter_def history_project_def
        asked_world_eval d)
  show ?thesis using reachable_asked_world m ne a b c e f by simp
qed

section \<open>The history read\<close>














end
